theory Spec2Isabelle
  imports Complex_Main "HOL-Library.Sublist" "HOL-Library.Log_Nat"
begin

section \<open>Strings\<close>

text \<open>
  A JavaScript string is modelled by the bytes of its UTF-8 encoding, as the script file
  itself stores its literals: a \<^typ>\<open>string\<close> is a list of bytes, an ASCII character is
  one byte, and every other character is the two to four bytes of its encoding. Strings
  with unpaired surrogates have no such encoding and are outside the model.
\<close>

definition byte :: "char \<Rightarrow> nat" where
  "byte c = of_char c"

definition starts_with :: "string \<Rightarrow> string \<Rightarrow> bool" where
  "starts_with w s = (take (length w) s = w)"

definition ends_with :: "string \<Rightarrow> string \<Rightarrow> bool" where
  "ends_with w s = (length w \<le> length s \<and> drop (length s - length w) s = w)"

text \<open>
  The characters that ECMAScript's \<open>WhiteSpace\<close> and \<open>LineTerminator\<close> productions
  list (what \<open>String.prototype.trim\<close> strips and what \<open>\s\<close> matches), each in UTF-8:
  TAB, LF, VT, FF, CR, SPACE, U+00A0, U+1680, U+2000 to U+200A, U+2028, U+2029, U+202F,
  U+205F, U+3000 and U+FEFF.
\<close>

definition js_whitespace :: "string list" where
  "js_whitespace =
     [[CHR 0x09], [CHR 0x0A], [CHR 0x0B], [CHR 0x0C], [CHR 0x0D], [CHR 0x20],
      [CHR 0xC2, CHR 0xA0], [CHR 0xE1, CHR 0x9A, CHR 0x80],
      [CHR 0xE2, CHR 0x80, CHR 0x80], [CHR 0xE2, CHR 0x80, CHR 0x81],
      [CHR 0xE2, CHR 0x80, CHR 0x82], [CHR 0xE2, CHR 0x80, CHR 0x83],
      [CHR 0xE2, CHR 0x80, CHR 0x84], [CHR 0xE2, CHR 0x80, CHR 0x85],
      [CHR 0xE2, CHR 0x80, CHR 0x86], [CHR 0xE2, CHR 0x80, CHR 0x87],
      [CHR 0xE2, CHR 0x80, CHR 0x88], [CHR 0xE2, CHR 0x80, CHR 0x89],
      [CHR 0xE2, CHR 0x80, CHR 0x8A], [CHR 0xE2, CHR 0x80, CHR 0xA8],
      [CHR 0xE2, CHR 0x80, CHR 0xA9], [CHR 0xE2, CHR 0x80, CHR 0xAF],
      [CHR 0xE2, CHR 0x81, CHR 0x9F], [CHR 0xE3, CHR 0x80, CHR 0x80],
      [CHR 0xEF, CHR 0xBB, CHR 0xBF]]"

text \<open>The number of bytes of the white space character a string starts with, or 0.\<close>

definition space_len :: "string \<Rightarrow> nat" where
  "space_len s = (case find (\<lambda>w. starts_with w s) js_whitespace of
                    None \<Rightarrow> 0 | Some w \<Rightarrow> length w)"

text \<open>The number of bytes of the white space character a string ends with, or 0.\<close>

definition space_len_end :: "string \<Rightarrow> nat" where
  "space_len_end s = (case find (\<lambda>w. ends_with w s) js_whitespace of
                        None \<Rightarrow> 0 | Some w \<Rightarrow> length w)"

lemma find_holds: "find P xs = Some x \<Longrightarrow> P x"
  by (induction xs) (simp_all split: if_splits)

lemma space_len_le: "space_len s \<le> length s"
proof (cases "find (\<lambda>w. starts_with w s) js_whitespace")
  case None
  then show ?thesis by (simp add: space_len_def)
next
  case (Some w)
  then have "take (length w) s = w" unfolding starts_with_def by (rule find_holds)
  then have "length (take (length w) s) = length w" by (rule arg_cong)
  then have "length w \<le> length s" by simp
  with Some show ?thesis by (simp add: space_len_def)
qed

lemma space_len_end_le: "space_len_end s \<le> length s"
proof (cases "find (\<lambda>w. ends_with w s) js_whitespace")
  case None
  then show ?thesis by (simp add: space_len_end_def)
next
  case (Some w)
  then have "ends_with w s" by (rule find_holds)
  then have "length w \<le> length s" unfolding ends_with_def by (rule conjunct1)
  with Some show ?thesis by (simp add: space_len_end_def)
qed

function trim_start :: "string \<Rightarrow> string" where
  "trim_start s = (if space_len s = 0 then s else trim_start (drop (space_len s) s))"
  by pat_completeness auto
termination
proof (relation "measure length")
  show "wf (measure length)" by simp
next
  fix s :: string
  assume "space_len s \<noteq> 0"
  moreover have "space_len s \<le> length s" by (rule space_len_le)
  ultimately show "(drop (space_len s) s, s) \<in> measure length" by simp
qed

function trim_end :: "string \<Rightarrow> string" where
  "trim_end s =
     (if space_len_end s = 0 then s else trim_end (take (length s - space_len_end s) s))"
  by pat_completeness auto
termination
proof (relation "measure length")
  show "wf (measure length)" by simp
next
  fix s :: string
  assume "space_len_end s \<noteq> 0"
  moreover have "space_len_end s \<le> length s" by (rule space_len_end_le)
  ultimately show "(take (length s - space_len_end s) s, s) \<in> measure length" by simp
qed

declare trim_start.simps [simp del] trim_end.simps [simp del]

text \<open>\<open>String.prototype.trim\<close>.\<close>

definition trim :: "string \<Rightarrow> string" where
  "trim s = trim_end (trim_start s)"

text \<open>
  The operator \<open>a || b\<close> on two strings: the first when it is not empty. An absent
  property or attribute (\<open>undefined\<close>, \<open>null\<close>) is \<open>None\<close>, and is falsy as well.
\<close>

definition or_else :: "string option \<Rightarrow> string option \<Rightarrow> string option" where
  "or_else a b = (case a of None \<Rightarrow> b | Some s \<Rightarrow> if s = [] then b else Some s)"

section \<open>Numbers\<close>

text \<open>
  A JavaScript Number is an IEEE 754 double. A finite double is modelled by the rational
  number it denotes, exactly; \<open>to_double\<close> rounds a rational to the nearest double,
  ties to the even significand, as every arithmetic operation and every conversion from
  text does. The zero of the model stands for both \<open>+0\<close> and \<open>-0\<close>: nothing the
  script does with a number (\<open>isFinite\<close>, \<open>Number.isNaN\<close>, multiplying and dividing by
  1000, \<open>Math.round\<close>, \<open>toFixed\<close>) tells them apart in its result.
\<close>

datatype jsnum = NaN | PosInf | NegInf | Fin rat

definition pow2 :: "int \<Rightarrow> rat" where
  "pow2 e = (if 0 \<le> e then 2 ^ nat e else 1 / 2 ^ nat (- e))"

definition pow10 :: "int \<Rightarrow> rat" where
  "pow10 e = (if 0 \<le> e then 10 ^ nat e else 1 / 10 ^ nat (- e))"

text \<open>Rounding to the nearest integer, a tie to the even one.\<close>

definition round_half_even :: "rat \<Rightarrow> int" where
  "round_half_even q =
     (let f = \<lfloor>q\<rfloor>; r = q - of_int f
      in if r < 1 / 2 then f else if 1 / 2 < r then f + 1 else if even f then f else f + 1)"

text \<open>The binary exponent of a positive rational: \<open>2 ^ binade q \<le> q < 2 ^ (binade q + 1)\<close>.\<close>

definition binade :: "rat \<Rightarrow> int" where
  "binade q = (if 1 \<le> q then bitlen \<lfloor>q\<rfloor> - 1 else - bitlen (\<lceil>1 / q\<rceil> - 1))"

text \<open>
  The nearest double: a significand of 53 bits, the exponent not below that of the
  subnormal numbers, and infinity once the rounded value reaches \<open>2 ^ 1024\<close> (the test
  \<open>1024 \<le> binade v\<close>).
\<close>

definition to_double :: "rat \<Rightarrow> jsnum" where
  "to_double q =
     (if q = 0 then Fin 0
      else
        let m = \<bar>q\<bar>;
            e = max (binade m) (- 1022);
            u = pow2 (e - 52);
            v = of_int (round_half_even (m / u)) * u
        in if v \<noteq> 0 \<and> 1024 \<le> binade v then (if q < 0 then NegInf else PosInf)
           else Fin (if q < 0 then - v else v))"

text \<open>
  \<open>x * c\<close> and \<open>x / c\<close> for a positive constant \<open>c\<close> (the script has only 1000):
  the exact result, rounded; NaN and the infinities are kept.
\<close>

definition js_times :: "jsnum \<Rightarrow> rat \<Rightarrow> jsnum" where
  "js_times x c = (case x of Fin q \<Rightarrow> to_double (q * c) | _ \<Rightarrow> x)"

definition js_over :: "jsnum \<Rightarrow> rat \<Rightarrow> jsnum" where
  "js_over x c = (case x of Fin q \<Rightarrow> to_double (q / c) | _ \<Rightarrow> x)"

text \<open>
  \<open>Math.round\<close>: the integer closest to \<open>x\<close>, and of two equally close ones the one
  towards \<open>+\<infinity>\<close>. The integer is a double again.
\<close>

definition math_round :: "jsnum \<Rightarrow> jsnum" where
  "math_round x = (case x of Fin q \<Rightarrow> Fin (of_int \<lfloor>q + 1 / 2\<rfloor>) | _ \<Rightarrow> x)"

definition is_finite :: "jsnum \<Rightarrow> bool" where
  "is_finite x = (case x of Fin _ \<Rightarrow> True | _ \<Rightarrow> False)"

definition is_nan :: "jsnum \<Rightarrow> bool" where
  "is_nan x = (case x of NaN \<Rightarrow> True | _ \<Rightarrow> False)"

subsection \<open>Numbers from text\<close>

definition is_digit :: "char \<Rightarrow> bool" where
  "is_digit c = (48 \<le> byte c \<and> byte c \<le> 57)"

definition digit_val :: "char \<Rightarrow> int" where
  "digit_val c = int (byte c) - 48"

definition dec_value :: "string \<Rightarrow> int" where
  "dec_value ds = foldl (\<lambda>a c. 10 * a + digit_val c) 0 ds"

definition scan_sign :: "string \<Rightarrow> bool \<times> string" where
  "scan_sign s =
     (case s of
        [] \<Rightarrow> (False, s)
      | c # cs \<Rightarrow> if c = CHR ''-'' then (True, cs) else if c = CHR ''+'' then (False, cs)
                 else (False, s))"

text \<open>An \<open>ExponentPart\<close> if the string starts with one: its value and what follows it.\<close>

definition scan_exponent :: "string \<Rightarrow> int \<times> string" where
  "scan_exponent s =
     (case s of
        [] \<Rightarrow> (0, s)
      | c # cs \<Rightarrow>
          if c = CHR ''e'' \<or> c = CHR ''E'' then
            (let (neg, r) = scan_sign cs; ds = takeWhile is_digit r
             in if ds = [] then (0, s)
                else (if neg then - dec_value ds else dec_value ds, dropWhile is_digit r))
          else (0, s))"

definition scan_fraction :: "string \<Rightarrow> string \<times> string" where
  "scan_fraction s =
     (case s of
        [] \<Rightarrow> ([], s)
      | c # cs \<Rightarrow> if c = CHR ''.'' then (takeWhile is_digit cs, dropWhile is_digit cs)
                 else ([], s))"

text \<open>
  The longest prefix that is a \<open>StrUnsignedDecimalLiteral\<close> other than \<open>Infinity\<close>
  (digits with an optional fraction, or a fraction alone, and an optional exponent): its
  mathematical value and the rest of the string.
\<close>

definition scan_unsigned :: "string \<Rightarrow> (rat \<times> string) option" where
  "scan_unsigned s =
     (let ip = takeWhile is_digit s;
          (fp, r2) = scan_fraction (dropWhile is_digit s)
      in if ip = [] \<and> fp = [] then None
         else
           let (e, r3) = scan_exponent r2
           in Some (of_int (dec_value (ip @ fp)) * pow10 (e - int (length fp)), r3))"

text \<open>The longest prefix that is a \<open>StrDecimalLiteral\<close>: its Number value and the rest.\<close>

definition scan_decimal :: "string \<Rightarrow> (jsnum \<times> string) option" where
  "scan_decimal s =
     (let (neg, r) = scan_sign s
      in if starts_with ''Infinity'' r then Some (if neg then NegInf else PosInf, drop 8 r)
         else case scan_unsigned r of
                None \<Rightarrow> None
              | Some (q, r') \<Rightarrow> Some (to_double (if neg then - q else q), r'))"

text \<open>
  \<open>parseFloat\<close>: leading white space is skipped, the longest prefix that is a decimal
  literal counts, and whatever follows it is ignored.
\<close>

definition parseFloat :: "string \<Rightarrow> jsnum" where
  "parseFloat s = (case scan_decimal (trim_start s) of None \<Rightarrow> NaN | Some (n, _) \<Rightarrow> n)"

definition digit_in :: "nat \<Rightarrow> char \<Rightarrow> int option" where
  "digit_in radix c =
     (let v = (if is_digit c then int (byte c) - 48
               else if 97 \<le> byte c \<and> byte c \<le> 102 then int (byte c) - 87
               else if 65 \<le> byte c \<and> byte c \<le> 70 then int (byte c) - 55
               else 16)
      in if v < int radix then Some v else None)"

definition radix_value :: "nat \<Rightarrow> string \<Rightarrow> int option" where
  "radix_value radix ds =
     (if ds = [] \<or> list_ex (\<lambda>c. digit_in radix c = None) ds then None
      else Some (foldl (\<lambda>a c. int radix * a + the (digit_in radix c)) 0 ds))"

text \<open>A \<open>NonDecimalIntegerLiteral\<close>: \<open>0x\<close>, \<open>0o\<close> or \<open>0b\<close> and digits of that radix.\<close>

definition non_decimal :: "string \<Rightarrow> int option" where
  "non_decimal s =
     (case s of
        z # p # ds \<Rightarrow>
          if z \<noteq> CHR ''0'' then None
          else if p = CHR ''x'' \<or> p = CHR ''X'' then radix_value 16 ds
          else if p = CHR ''o'' \<or> p = CHR ''O'' then radix_value 8 ds
          else if p = CHR ''b'' \<or> p = CHR ''B'' then radix_value 2 ds
          else None
      | _ \<Rightarrow> None)"

text \<open>
  \<open>Number(s)\<close> for a string: white space around it is dropped; the empty string is 0;
  otherwise the whole of it must be a decimal literal or a non-decimal integer literal,
  and is NaN if not.
\<close>

definition string_to_number :: "string \<Rightarrow> jsnum" where
  "string_to_number s =
     (let t = trim s
      in if t = [] then Fin 0
         else case scan_decimal t of
                Some (n, []) \<Rightarrow> n
              | _ \<Rightarrow> (case non_decimal t of None \<Rightarrow> NaN | Some k \<Rightarrow> to_double (of_int k)))"

text \<open>The values the script passes to \<open>round3\<close>: a number or a string.\<close>

datatype jsval = JNum jsnum | JStr string

fun to_number :: "jsval \<Rightarrow> jsnum" where
  "to_number (JNum n) = n"
| "to_number (JStr s) = string_to_number s"

subsection \<open>Text from numbers\<close>

text \<open>The decimal digits of a natural number.\<close>

definition digit_char :: "int \<Rightarrow> char" where
  "digit_char d = char_of (48 + nat d)"

function show_int :: "int \<Rightarrow> string" where
  "show_int n = (if n < 10 then [digit_char n]
                 else show_int (n div 10) @ [digit_char (n mod 10)])"
  by pat_completeness auto
termination
  by (relation "measure nat") auto

declare show_int.simps [simp del]

text \<open>The decimal exponent of a positive rational: \<open>10 ^ (n - 1) \<le> a < 10 ^ n\<close>.\<close>

definition dec_exponent :: "rat \<Rightarrow> int" where
  "dec_exponent a =
     (if 1 \<le> a then int (length (show_int \<lfloor>a\<rfloor>))
      else 1 - int (length (show_int (\<lceil>1 / a\<rceil> - 1))))"

text \<open>
  \<open>Number::toString\<close> of a positive double \<open>a\<close> takes the fewest digits \<open>k\<close> for which
  some \<open>s\<close> of \<open>k\<close> digits has the double of \<open>s \<times> 10 ^ (n - k)\<close> equal to \<open>a\<close>, and of
  several such \<open>s\<close> the closest to \<open>a\<close> (the even one of two equally close). Only the two
  multiples of \<open>10 ^ (n - k)\<close> around \<open>a\<close> can be that.
\<close>

definition reads_back :: "rat \<Rightarrow> int \<Rightarrow> int \<Rightarrow> bool" where
  "reads_back a e s = (to_double (of_int s * pow10 e) = Fin a)"

definition digits_at :: "rat \<Rightarrow> int \<Rightarrow> int \<Rightarrow> int option" where
  "digits_at a n k =
     (let e = n - k; lo = \<lfloor>a / pow10 e\<rfloor>; hi = lo + 1;
          dlo = a - of_int lo * pow10 e; dhi = of_int hi * pow10 e - a
      in if reads_back a e lo \<and> reads_back a e hi then
           Some (if dlo < dhi then lo else if dhi < dlo then hi else if even lo then lo else hi)
         else if reads_back a e lo then Some lo
         else if reads_back a e hi then Some hi
         else None)"

definition shortest_digits :: "rat \<Rightarrow> string \<times> int" where
  "shortest_digits a =
     (let n = dec_exponent a
      in case List.map_filter (\<lambda>k. map_option (\<lambda>s. (s, k)) (digits_at a n k)) [1..17] of
           [] \<Rightarrow> (show_int \<lfloor>a / pow10 (n - 17)\<rfloor>, n)
         | (s, k) # _ \<Rightarrow> if s = 10 ^ nat k then (show_int (10 ^ nat (k - 1)), n + 1)
                         else (show_int s, n))"

definition to_string_pos :: "rat \<Rightarrow> string" where
  "to_string_pos a =
     (let (ds, n) = shortest_digits a; k = int (length ds)
      in if k \<le> n \<and> n \<le> 21 then ds @ replicate (nat (n - k)) CHR ''0''
         else if 0 < n \<and> n \<le> 21 then take (nat n) ds @ ''.'' @ drop (nat n) ds
         else if - 6 < n \<and> n \<le> 0 then ''0.'' @ replicate (nat (- n)) CHR ''0'' @ ds
         else
           (if k = 1 then ds else take 1 ds @ ''.'' @ drop 1 ds)
             @ ''e'' @ (if 0 \<le> n - 1 then ''+'' else ''-'') @ show_int \<bar>n - 1\<bar>)"

text \<open>
  \<open>x.toFixed(3)\<close>. Below \<open>10 ^ 21\<close> the digits are those of the integer \<open>n\<close> for which
  \<open>n / 1000\<close> is closest to the magnitude of \<open>x\<close> (the larger of two equally close),
  padded to four, with the point before the last three; from \<open>10 ^ 21\<close> on the result is
  that of \<open>toString\<close>.
\<close>

definition toFixed3 :: "jsnum \<Rightarrow> string" where
  "toFixed3 x =
     (case x of
        NaN \<Rightarrow> ''NaN''
      | PosInf \<Rightarrow> ''Infinity''
      | NegInf \<Rightarrow> ''-Infinity''
      | Fin q \<Rightarrow>
          (if q < 0 then ''-'' else []) @
          (let a = \<bar>q\<bar>
           in if 10 ^ 21 \<le> a then to_string_pos a
              else
                let n = \<lfloor>a * 1000 + 1 / 2\<rfloor>;
                    m = replicate (4 - length (show_int n)) CHR ''0'' @ show_int n
                in take (length m - 3) m @ ''.'' @ drop (length m - 3) m))"

section \<open>The Coordinate Normalizer\<close>

text \<open>
  \<open>s.replace(/(?:\.0+$|(\.\d+?)0+$)/, '$1')\<close>: at the first point that is followed to
  the end of the string by zeros only, the point and the zeros are removed; at the first
  point that is followed to the end by digits of which the last is a zero, the zeros at
  the end are removed.
\<close>

fun strip_zeros :: "string \<Rightarrow> string" where
  "strip_zeros [] = []"
| "strip_zeros (c # cs) =
     (if c = CHR ''.'' \<and> cs \<noteq> [] \<and> list_all (\<lambda>d. d = CHR ''0'') cs then []
      else if c = CHR ''.'' \<and> cs \<noteq> [] \<and> list_all is_digit cs \<and> last cs = CHR ''0''
        then c # rev (dropWhile (\<lambda>d. d = CHR ''0'') (rev cs))
      else c # strip_zeros cs)"

text \<open>
  The canonical form the specification describes, for the integer \<open>k\<close> of thousandths:
  the integer part, then the three decimal digits without the zeros at their end, and no
  point when all three are zero.
\<close>

definition frac3 :: "int \<Rightarrow> string" where
  "frac3 f = [digit_char (f div 100), digit_char (f div 10 mod 10), digit_char (f mod 10)]"

definition decimal3 :: "int \<Rightarrow> string" where
  "decimal3 k =
     (if k < 0 then ''-'' else []) @ show_int (\<bar>k\<bar> div 1000) @
     (if \<bar>k\<bar> mod 1000 = 0 then []
      else ''.'' @ rev (dropWhile (\<lambda>d. d = CHR ''0'') (rev (frac3 (\<bar>k\<bar> mod 1000)))))"

text \<open>
  Rounding to the nearest integer as the specification words it: a value exactly half
  way between two integers goes away from zero.
\<close>

definition round_half_away :: "rat \<Rightarrow> int" where
  "round_half_away x = (if x < 0 then - \<lfloor>- x + 1 / 2\<rfloor> else \<lfloor>x + 1 / 2\<rfloor>)"

text \<open>
  \<open>round3(v)\<close>:
  \<^verbatim>\<open>const n = Number(v); if (!isFinite(n)) return null;\<close>
  \<^verbatim>\<open>const s = (Math.round(n * 1000) / 1000).toFixed(3);\<close>
  \<^verbatim>\<open>return s.replace(/(?:\.0+$|(\.\d+?)0+$)/, '$1');\<close>
\<close>

definition round3 :: "jsval \<Rightarrow> string option" where
  "round3 v =
     (let n = to_number v
      in if \<not> is_finite n then None
         else Some (strip_zeros (toFixed3 (js_over (math_round (js_times n 1000)) 1000))))"

section \<open>URLs\<close>

text \<open>
  \<open>new URL(s)\<close> and \<open>URLSearchParams\<close> are the platform's, not the script's. They are
  modelled after the WHATWG URL Standard: its basic URL parser without a base URL, the
  host parser, the getters \<open>host\<close>, \<open>pathname\<close>, \<open>search\<close>, \<open>hash\<close> and
  \<open>searchParams\<close>, and the \<open>application/x-www-form-urlencoded\<close> parser. A URL that
  does not parse is \<open>None\<close>: the constructor throws.
\<close>

subsection \<open>Characters and percent-encoding\<close>

definition is_alpha :: "char \<Rightarrow> bool" where
  "is_alpha c = ((65 \<le> byte c \<and> byte c \<le> 90) \<or> (97 \<le> byte c \<and> byte c \<le> 122))"

definition lower_char :: "char \<Rightarrow> char" where
  "lower_char c = (if 65 \<le> byte c \<and> byte c \<le> 90 then char_of (byte c + 32) else c)"

definition lower :: "string \<Rightarrow> string" where
  "lower s = map lower_char s"

text \<open>A case-insensitive prefix test, as a regular expression with the flag \<open>i\<close> makes it.\<close>

definition starts_with_ci :: "string \<Rightarrow> string \<Rightarrow> bool" where
  "starts_with_ci w s = (lower (take (length w) s) = lower w)"

definition is_hex :: "char \<Rightarrow> bool" where
  "is_hex c = (digit_in 16 c \<noteq> None)"

definition hex_val :: "char \<Rightarrow> nat" where
  "hex_val c = (case digit_in 16 c of None \<Rightarrow> 0 | Some v \<Rightarrow> nat v)"

fun percent_decode :: "string \<Rightarrow> string" where
  "percent_decode (p # a # b # cs) =
     (if p = CHR ''%'' \<and> is_hex a \<and> is_hex b
      then char_of (16 * hex_val a + hex_val b) # percent_decode cs
      else p # percent_decode (a # b # cs))"
| "percent_decode cs = cs"

definition percent_byte :: "char \<Rightarrow> string" where
  "percent_byte c =
     [CHR ''%'', ''0123456789ABCDEF'' ! (byte c div 16), ''0123456789ABCDEF'' ! (byte c mod 16)]"

text \<open>
  UTF-8 percent-encoding with a percent-encode set. The string is UTF-8 already, and
  every byte of a character beyond ASCII is in every set.
\<close>

definition percent_encode :: "(char \<Rightarrow> bool) \<Rightarrow> string \<Rightarrow> string" where
  "percent_encode in_set s = concat (map (\<lambda>c. if in_set c then percent_byte c else [c]) s)"

definition c0_control_set :: "char \<Rightarrow> bool" where
  "c0_control_set c = (byte c \<le> 0x1F \<or> 0x7E < byte c)"

definition fragment_set :: "char \<Rightarrow> bool" where
  "fragment_set c = (c0_control_set c \<or> c \<in> set [CHR 0x20, CHR 0x22, CHR ''<'', CHR ''>'', CHR 0x60])"

definition query_set :: "char \<Rightarrow> bool" where
  "query_set c = (c0_control_set c \<or> c \<in> set [CHR 0x20, CHR 0x22, CHR ''#'', CHR ''<'', CHR ''>''])"

definition special_query_set :: "char \<Rightarrow> bool" where
  "special_query_set c = (query_set c \<or> c = CHR 0x27)"

definition path_set :: "char \<Rightarrow> bool" where
  "path_set c = (query_set c \<or> c \<in> set [CHR ''?'', CHR ''^'', CHR 0x60, CHR ''{'', CHR ''}''])"

text \<open>
  UTF-8 decoding replaces every ill-formed sequence by U+FFFD. On the bytes: a lead byte
  with all its continuation bytes is kept; a byte that can start nothing, and a lead byte
  with the continuation bytes that do follow it when some are missing, become the three
  bytes of U+FFFD.
\<close>

fun cont_run :: "nat \<Rightarrow> nat \<Rightarrow> nat \<Rightarrow> string \<Rightarrow> nat" where
  "cont_run 0 lo hi bs = 0"
| "cont_run (Suc k) lo hi [] = 0"
| "cont_run (Suc k) lo hi (c # cs) =
     (if lo \<le> byte c \<and> byte c \<le> hi then Suc (cont_run k 0x80 0xBF cs) else 0)"

lemma cont_run_le: "cont_run k lo hi bs \<le> length bs"
  by (induction k lo hi bs rule: cont_run.induct) simp_all

definition utf8_needed :: "char \<Rightarrow> nat \<times> nat \<times> nat" where
  "utf8_needed b =
     (let n = byte b
      in if 0xC2 \<le> n \<and> n \<le> 0xDF then (1, 0x80, 0xBF)
         else if 0xE0 \<le> n \<and> n \<le> 0xEF
           then (2, if n = 0xE0 then 0xA0 else 0x80, if n = 0xED then 0x9F else 0xBF)
         else if 0xF0 \<le> n \<and> n \<le> 0xF4
           then (3, if n = 0xF0 then 0x90 else 0x80, if n = 0xF4 then 0x8F else 0xBF)
         else (0, 0, 0))"

definition utf8_run :: "char \<Rightarrow> string \<Rightarrow> nat" where
  "utf8_run b bs = (case utf8_needed b of (needed, lo, hi) \<Rightarrow> cont_run needed lo hi bs)"

definition utf8_complete :: "char \<Rightarrow> string \<Rightarrow> bool" where
  "utf8_complete b bs = (fst (utf8_needed b) \<noteq> 0 \<and> utf8_run b bs = fst (utf8_needed b))"

function utf8_decode :: "string \<Rightarrow> string" where
  "utf8_decode [] = []"
| "utf8_decode (b # bs) =
     (if byte b < 0x80 then b # utf8_decode bs
      else if utf8_complete b bs
        then b # take (utf8_run b bs) bs @ utf8_decode (drop (utf8_run b bs) bs)
      else [CHR 0xEF, CHR 0xBF, CHR 0xBD] @ utf8_decode (drop (utf8_run b bs) bs))"
  by pat_completeness auto
termination
  by (relation "measure length") auto

declare utf8_decode.simps [simp del]

subsection \<open>Hosts\<close>

text \<open>
  Three parts of the platform are parameters of the model, for they rest on tables or
  on algorithms of no concern to the script: Unicode ToASCII for a domain that is not
  ASCII or has a label starting with \<open>xn--\<close> (\<open>idna\<close>), the IPv6 parser and serializer
  for the text between brackets (\<open>ipv6\<close>), and the parser of URLs of the \<open>file\<close> scheme
  (\<open>file_url\<close>), which the script never builds. Each returns \<open>None\<close> for a failure.
\<close>

datatype url_path = Opaque string | Segments "string list"

record url =
  scheme :: string
  hostname :: "string option"
  port :: "int option"
  path :: url_path
  query :: "string option"
  fragment :: "string option"

record platform =
  idna :: "string \<Rightarrow> string option"
  ipv6 :: "string \<Rightarrow> string option"
  file_url :: "string \<Rightarrow> url option"

definition is_special :: "string \<Rightarrow> bool" where
  "is_special sch = (sch \<in> set [''ftp'', ''http'', ''https'', ''ws'', ''wss''])"

definition default_port :: "string \<Rightarrow> int option" where
  "default_port sch =
     map_of [(''ftp'', 21), (''http'', 80), (''https'', 443), (''ws'', 80), (''wss'', 443)] sch"

definition forbidden_host :: "char \<Rightarrow> bool" where
  "forbidden_host c =
     (c \<in> set [CHR 0x00, CHR 0x09, CHR 0x0A, CHR 0x0D, CHR 0x20, CHR 0x5C]
      \<or> c \<in> set ''#/:<>?@[]^|'')"

definition forbidden_domain :: "char \<Rightarrow> bool" where
  "forbidden_domain c = (forbidden_host c \<or> byte c \<le> 0x1F \<or> c = CHR ''%'' \<or> byte c = 0x7F)"

text \<open>Strictly splitting a string at the characters that satisfy \<open>sep\<close>.\<close>

fun split_where :: "(char \<Rightarrow> bool) \<Rightarrow> string \<Rightarrow> string list" where
  "split_where sep [] = [[]]"
| "split_where sep (x # xs) =
     (if sep x then [] # split_where sep xs
      else case split_where sep xs of [] \<Rightarrow> [[x]] | p # ps \<Rightarrow> (x # p) # ps)"

definition split_on :: "char \<Rightarrow> string \<Rightarrow> string list" where
  "split_on c s = split_where (\<lambda>x. x = c) s"

text \<open>The IPv4 number parser: hexadecimal after \<open>0x\<close>, octal after \<open>0\<close>, else decimal.\<close>

definition ipv4_number :: "string \<Rightarrow> int option" where
  "ipv4_number s =
     (if s = [] then None
      else if 2 \<le> length s \<and> (take 2 s = ''0x'' \<or> take 2 s = ''0X'')
        then (if drop 2 s = [] then Some 0 else radix_value 16 (drop 2 s))
      else if 2 \<le> length s \<and> hd s = CHR ''0'' then radix_value 8 (tl s)
      else radix_value 10 s)"

definition ipv4_parts :: "string \<Rightarrow> string list" where
  "ipv4_parts a =
     (let parts = split_on CHR ''.'' a
      in if last parts = [] \<and> 1 < length parts then butlast parts else parts)"

definition ends_in_number :: "string \<Rightarrow> bool" where
  "ends_in_number a =
     (let parts = split_on CHR ''.'' a
      in if last parts = [] \<and> length parts = 1 then False
         else
           let l = last (ipv4_parts a)
           in (l \<noteq> [] \<and> list_all is_digit l) \<or> ipv4_number l \<noteq> None)"

definition ipv4_parse :: "string \<Rightarrow> string option" where
  "ipv4_parse a =
     (let parts = ipv4_parts a; numbers = map ipv4_number parts
      in if 4 < length parts \<or> list_ex (\<lambda>n. n = None) numbers then None
         else
           let ns = map the numbers; l = last ns
           in if list_ex (\<lambda>n. 255 < n) (butlast ns) \<or> 256 ^ (5 - length ns) \<le> l then None
              else
                let v = l + sum_list (map (\<lambda>(n, i). n * 256 ^ (3 - i)) (zip (butlast ns) [0..<3]))
                in Some (show_int (v div 256 ^ 3) @ ''.'' @ show_int (v div 256 ^ 2 mod 256) @ ''.''
                         @ show_int (v div 256 mod 256) @ ''.'' @ show_int (v mod 256)))"

text \<open>
  Domain to ASCII. For an ASCII domain without a label that starts with \<open>xn--\<close> the
  Standard notes that the result is the domain in lower case; an empty result is a
  failure.
\<close>

definition domain_to_ascii :: "platform \<Rightarrow> string \<Rightarrow> string option" where
  "domain_to_ascii P d =
     (let r = (if list_all (\<lambda>c. byte c < 0x80) d
                  \<and> \<not> list_ex (starts_with_ci ''xn--'') (split_on CHR ''.'' d)
               then Some (lower d) else idna P d)
      in if r = Some [] then None else r)"

text \<open>The host parser; \<open>opaque\<close> is true for a URL that is not special.\<close>

definition host_parse :: "platform \<Rightarrow> bool \<Rightarrow> string \<Rightarrow> string option" where
  "host_parse P opaque h =
     (if starts_with ''['' h then
        (if \<not> ends_with '']'' h then None
         else map_option (\<lambda>a. ''['' @ a @ '']'') (ipv6 P (butlast (tl h))))
      else if opaque then
        (if list_ex forbidden_host h then None else Some (percent_encode c0_control_set h))
      else
        case domain_to_ascii P (utf8_decode (percent_decode h)) of
          None \<Rightarrow> None
        | Some a \<Rightarrow>
            if list_ex forbidden_domain a then None
            else if ends_in_number a then ipv4_parse a
            else Some a)"

subsection \<open>The basic URL parser\<close>

definition scheme_char :: "char \<Rightarrow> bool" where
  "scheme_char c = (is_alpha c \<or> is_digit c \<or> c \<in> set ''+-.'')"

definition slash :: "bool \<Rightarrow> char \<Rightarrow> bool" where
  "slash special c = (c = CHR ''/'' \<or> (special \<and> c = CHR 0x5C))"

definition query_or_fragment :: "char \<Rightarrow> bool" where
  "query_or_fragment c = (c = CHR ''?'' \<or> c = CHR ''#'')"

text \<open>Leading and trailing C0 controls and spaces go, and every tab and newline.\<close>

definition url_input :: "string \<Rightarrow> string" where
  "url_input s =
     filter (\<lambda>c. c \<notin> set [CHR 0x09, CHR 0x0A, CHR 0x0D])
       (rev (dropWhile (\<lambda>c. byte c \<le> 0x20) (rev (dropWhile (\<lambda>c. byte c \<le> 0x20) s))))"

text \<open>
  The query and fragment states, on what is left of the input from the first \<open>?\<close> or
  \<open>#\<close> on.
\<close>

definition parse_fragment :: "string \<Rightarrow> string option" where
  "parse_fragment s = (case s of [] \<Rightarrow> None | _ # f \<Rightarrow> Some (percent_encode fragment_set f))"

definition parse_query :: "bool \<Rightarrow> string \<Rightarrow> string option" where
  "parse_query special s =
     (case s of
        [] \<Rightarrow> None
      | c # q \<Rightarrow>
          if c = CHR ''?''
          then Some (percent_encode (if special then special_query_set else query_set)
                       (takeWhile (\<lambda>c. c \<noteq> CHR ''#'') q))
          else None)"

definition after_query :: "string \<Rightarrow> string" where
  "after_query s =
     (case s of [] \<Rightarrow> [] | c # q \<Rightarrow> if c = CHR ''?'' then dropWhile (\<lambda>c. c \<noteq> CHR ''#'') q else s)"

text \<open>
  The path state, on the segments after the first slash: a segment \<open>..\<close> removes the last
  segment of the path, a segment \<open>.\<close> adds nothing, and either leaves an empty segment
  when it is the last.
\<close>

definition single_dot :: "string \<Rightarrow> bool" where
  "single_dot seg = (lower seg \<in> set [''.'', ''%2e''])"

definition double_dot :: "string \<Rightarrow> bool" where
  "double_dot seg = (lower seg \<in> set [''..'', ''.%2e'', ''%2e.'', ''%2e%2e''])"

fun path_segments :: "string list \<Rightarrow> string list \<Rightarrow> string list" where
  "path_segments acc [] = acc"
| "path_segments acc [seg] =
     (if double_dot seg then butlast acc @ [[]]
      else if single_dot seg then acc @ [[]]
      else acc @ [seg])"
| "path_segments acc (seg # segs) =
     path_segments (if double_dot seg then butlast acc
                    else if single_dot seg then acc
                    else acc @ [seg]) segs"

definition parse_path :: "bool \<Rightarrow> string \<Rightarrow> url_path" where
  "parse_path special s =
     Segments (path_segments []
       (map (percent_encode path_set) (split_where (slash special) s)))"

text \<open>
  The path start state, on what follows the authority: a special URL always has a path;
  another one has none before a query, a fragment or the end.
\<close>

definition path_start :: "bool \<Rightarrow> string \<Rightarrow> url_path" where
  "path_start special s =
     (case takeWhile (\<lambda>c. \<not> query_or_fragment c) s of
        [] \<Rightarrow> if special then parse_path special [] else Segments []
      | c # cs \<Rightarrow> if slash special c then parse_path special cs else parse_path special (c # cs))"

text \<open>
  The opaque path state: C0 controls and bytes beyond ASCII are encoded, and a space
  right before the query or fragment.
\<close>

definition opaque_path :: "string \<Rightarrow> url_path" where
  "opaque_path s =
     (let p = takeWhile (\<lambda>c. \<not> query_or_fragment c) s; r = dropWhile (\<lambda>c. \<not> query_or_fragment c) s
      in Opaque (if p \<noteq> [] \<and> last p = CHR '' '' \<and> r \<noteq> []
                 then percent_encode c0_control_set (butlast p) @ ''%20''
                 else percent_encode c0_control_set p))"

text \<open>
  The port state, on the text between the colon and the end of the authority: digits
  only, at most 65535, and no port at all when it is the default of the scheme.
\<close>

definition parse_port :: "string \<Rightarrow> string \<Rightarrow> int option option" where
  "parse_port sch ps =
     (if \<not> list_all is_digit ps then None
      else if ps = [] then Some None
      else if 65535 < dec_value ps then None
      else if default_port sch = Some (dec_value ps) then Some None
      else Some (Some (dec_value ps)))"

text \<open>The host state splits host and port at the first colon outside brackets.\<close>

fun split_port :: "bool \<Rightarrow> string \<Rightarrow> string \<times> string option" where
  "split_port inside [] = ([], None)"
| "split_port inside (c # cs) =
     (if c = CHR '':'' \<and> \<not> inside then ([], Some cs)
      else
        let (h, p) = split_port (if c = CHR ''['' then True else if c = CHR '']'' then False
                                 else inside) cs
        in (c # h, p))"

definition finish_url ::
  "string \<Rightarrow> string option \<Rightarrow> int option \<Rightarrow> url_path \<Rightarrow> string \<Rightarrow> url" where
  "finish_url sch h p pa s =
     \<lparr>scheme = sch, hostname = h, port = p, path = pa,
      query = parse_query (is_special sch) (dropWhile (\<lambda>c. \<not> query_or_fragment c) s),
      fragment = parse_fragment (after_query (dropWhile (\<lambda>c. \<not> query_or_fragment c) s))\<rparr>"

text \<open>
  The authority state and the host state, on the input after the slashes. The authority
  ends at the first slash, \<open>?\<close> or \<open>#\<close>; credentials end at its last \<open>@\<close>, and an
  authority that has credentials and nothing else is a failure, as is an empty host
  before a port or in a special URL.
\<close>

definition parse_authority :: "platform \<Rightarrow> string \<Rightarrow> string \<Rightarrow> url option" where
  "parse_authority P sch s =
     (let special = is_special sch;
          ends = (\<lambda>c. slash special c \<or> query_or_fragment c);
          auth = takeWhile (\<lambda>c. \<not> ends c) s;
          rest = dropWhile (\<lambda>c. \<not> ends c) s;
          hp = rev (takeWhile (\<lambda>c. c \<noteq> CHR ''@'') (rev auth));
          (h, ps) = split_port False hp
      in if CHR ''@'' \<in> set auth \<and> hp = [] then None
         else if h = [] \<and> (ps \<noteq> None \<or> special) then None
         else
           case host_parse P (\<not> special) h of
             None \<Rightarrow> None
           | Some host \<Rightarrow>
               (case (case ps of None \<Rightarrow> Some None | Some t \<Rightarrow> parse_port sch t) of
                  None \<Rightarrow> None
                | Some p \<Rightarrow> Some (finish_url sch (Some host) p (path_start special rest) rest)))"

text \<open>
  The scheme start state and the scheme state, without a base URL: the input must start
  with a scheme and a colon. A special scheme is followed by the authority after any
  number of slashes and backslashes; another scheme by an authority after \<open>//\<close>, by a
  path after one slash, and by an opaque path otherwise.
\<close>

definition url_parse :: "platform \<Rightarrow> string \<Rightarrow> url option" where
  "url_parse P input =
     (let s = url_input input; sch = lower (takeWhile scheme_char s)
      in case dropWhile scheme_char s of
           [] \<Rightarrow> None
         | c # r \<Rightarrow>
             if s = [] \<or> \<not> is_alpha (hd s) \<or> c \<noteq> CHR '':'' then None
             else if sch = ''file'' then file_url P s
             else if is_special sch then parse_authority P sch (dropWhile (slash True) r)
             else if starts_with ''//'' r then parse_authority P sch (drop 2 r)
             else if starts_with ''/'' r
               then Some (finish_url sch None None (parse_path False (tl (takeWhile (\<lambda>c. \<not> query_or_fragment c) r))) r)
             else Some (finish_url sch None None (opaque_path r) r))"

subsection \<open>The getters of a URL\<close>

definition url_host :: "url \<Rightarrow> string" where
  "url_host u =
     (case hostname u of
        None \<Rightarrow> []
      | Some h \<Rightarrow> (case port u of None \<Rightarrow> h | Some p \<Rightarrow> h @ '':'' @ show_int p))"

definition url_pathname :: "url \<Rightarrow> string" where
  "url_pathname u =
     (case path u of Opaque s \<Rightarrow> s | Segments segs \<Rightarrow> concat (map (\<lambda>seg. ''/'' @ seg) segs))"

definition url_search :: "url \<Rightarrow> string" where
  "url_search u = (case query u of None \<Rightarrow> [] | Some q \<Rightarrow> if q = [] then [] else ''?'' @ q)"

definition url_hash :: "url \<Rightarrow> string" where
  "url_hash u = (case fragment u of None \<Rightarrow> [] | Some f \<Rightarrow> if f = [] then [] else ''#'' @ f)"

subsection \<open>Query parameters\<close>

text \<open>
  The \<open>application/x-www-form-urlencoded\<close> parser: the pairs between the \<open>&\<close>, name
  and value split at the first \<open>=\<close>, every \<open>+\<close> a space, both percent-decoded and
  UTF-8 decoded.
\<close>

definition form_decode :: "string \<Rightarrow> string" where
  "form_decode s = utf8_decode (percent_decode (map (\<lambda>c. if c = CHR ''+'' then CHR '' '' else c) s))"

definition urlencoded_parse :: "string \<Rightarrow> (string \<times> string) list" where
  "urlencoded_parse s =
     map (\<lambda>kv. (form_decode (takeWhile (\<lambda>c. c \<noteq> CHR ''='') kv),
                 form_decode (drop 1 (dropWhile (\<lambda>c. c \<noteq> CHR ''='') kv))))
       (filter (\<lambda>kv. kv \<noteq> []) (split_on CHR ''&'' s))"

text \<open>\<open>url.searchParams\<close> and \<open>new URLSearchParams(s)\<close>, which drops one leading \<open>?\<close>.\<close>

definition searchParams :: "url \<Rightarrow> (string \<times> string) list" where
  "searchParams u = urlencoded_parse (case query u of None \<Rightarrow> [] | Some q \<Rightarrow> q)"

definition URLSearchParams :: "string \<Rightarrow> (string \<times> string) list" where
  "URLSearchParams s = urlencoded_parse (if starts_with ''?'' s then tl s else s)"

text \<open>\<open>params.has(name)\<close> and \<open>params.get(name)\<close>: the first pair of that name.\<close>

definition has :: "(string \<times> string) list \<Rightarrow> string \<Rightarrow> bool" where
  "has params name = (map_of params name \<noteq> None)"

definition get :: "(string \<times> string) list \<Rightarrow> string \<Rightarrow> string option" where
  "get params name = map_of params name"

text \<open>A platform for running the model on ASCII hosts: every parameter fails.\<close>

definition no_platform :: platform where
  "no_platform = \<lparr>idna = (\<lambda>_. None), ipv6 = (\<lambda>_. None), file_url = (\<lambda>_. None)\<rparr>"

section \<open>The URL Fragment Extractor\<close>

text \<open>
  The class \<open>[^\s'"]\<close> and the class \<open>[^&\s]\<close>, each repeated as often as possible:
  the longest prefix without white space and quotes, or without white space and \<open>&\<close>.
\<close>

fun url_token :: "string \<Rightarrow> string" where
  "url_token [] = []"
| "url_token (c # cs) =
     (if space_len (c # cs) \<noteq> 0 \<or> c = CHR 0x22 \<or> c = CHR 0x27 then []
      else c # url_token cs)"

fun param_run :: "string \<Rightarrow> string" where
  "param_run [] = []"
| "param_run (c # cs) =
     (if space_len (c # cs) \<noteq> 0 \<or> c = CHR ''&'' then [] else c # param_run cs)"

text \<open>
  \<open>/(https?:\/\/)?(www\.)?wplace\.live[^\s'"]*/i\<close> at the start of a string. The two
  optional groups are tried present before absent, so the prefixes are tried in this
  order; the flag \<open>i\<close> folds the case of ASCII letters only.
\<close>

definition url_prefixes :: "string list" where
  "url_prefixes = [''https://www.'', ''https://'', ''http://www.'', ''http://'', ''www.'', []]"

definition re_url_here :: "string \<Rightarrow> string option" where
  "re_url_here s =
     (case find (\<lambda>p. starts_with_ci (p @ ''wplace.live'') s) url_prefixes of
        None \<Rightarrow> None
      | Some p \<Rightarrow> Some (take (length p + 11) s @ url_token (drop (length p + 11) s)))"

text \<open>\<open>String(text).match(reUrl)\<close>: the match at the first position that has one.\<close>

fun re_url :: "string \<Rightarrow> string option" where
  "re_url [] = re_url_here []"
| "re_url (c # cs) =
     (case re_url_here (c # cs) of None \<Rightarrow> re_url cs | Some m \<Rightarrow> Some m)"

text \<open>
  \<open>/^https?:\/\//i.test(s)\<close>, and the three replacements of the script:
  \<open>s.replace(/^(https?:\/\/)?/, '')\<close>, which is case-sensitive,
  \<open>s.replace(/^https?:\/\//i, '')\<close> and \<open>s.replace(/^www\./i, '')\<close>.
\<close>

definition has_protocol :: "string \<Rightarrow> bool" where
  "has_protocol s = (starts_with_ci ''https://'' s \<or> starts_with_ci ''http://'' s)"

definition strip_protocol_cs :: "string \<Rightarrow> string" where
  "strip_protocol_cs s =
     (if starts_with ''https://'' s then drop 8 s
      else if starts_with ''http://'' s then drop 7 s else s)"

definition strip_protocol :: "string \<Rightarrow> string" where
  "strip_protocol s =
     (if starts_with_ci ''https://'' s then drop 8 s
      else if starts_with_ci ''http://'' s then drop 7 s else s)"

definition strip_www :: "string \<Rightarrow> string" where
  "strip_www s = (if starts_with_ci ''www.'' s then drop 4 s else s)"

text \<open>\<open>s.indexOf('?')\<close> and \<open>s.slice(i + 1)\<close> in one: what follows the first \<open>?\<close>.\<close>

definition after_first_question :: "string \<Rightarrow> string option" where
  "after_first_question s =
     (if CHR ''?'' \<in> set s then Some (drop 1 (dropWhile (\<lambda>c. c \<noteq> CHR ''?'') s)) else None)"

text \<open>A value in a template literal: \<open>null\<close> prints as the word.\<close>

definition show_opt :: "string option \<Rightarrow> string" where
  "show_opt v = (case v of None \<Rightarrow> ''null'' | Some s \<Rightarrow> s)"

text \<open>\<open>params.has('zoom') ? params.get('zoom') : null\<close>, and whether it is truthy.\<close>

definition zoom_of :: "(string \<times> string) list \<Rightarrow> string option" where
  "zoom_of params = (if has params ''zoom'' then get params ''zoom'' else None)"

definition truthy :: "string option \<Rightarrow> bool" where
  "truthy v = (case v of None \<Rightarrow> False | Some s \<Rightarrow> s \<noteq> [])"

text \<open>
  The body of the \<open>try\<close> block after the URL is parsed (lines 41 to 49): both
  parameters must be there and must not parse to NaN; the zoom is appended as it is.
\<close>

definition format_structured :: "(string \<times> string) list \<Rightarrow> string option" where
  "format_structured params =
     (if \<not> has params ''lat'' \<or> \<not> has params ''lng'' then None
      else
        let lat = parseFloat (the (get params ''lat''));
            lng = parseFloat (the (get params ''lng''))
        in if is_nan lat \<or> is_nan lng then None
           else
             let latS = round3 (JNum lat);
                 lngS = round3 (JNum lng);
                 zoom = zoom_of params
             in Some (''wplace.live/?lat='' @ show_opt latS @ ''&lng='' @ show_opt lngS
                      @ (if truthy zoom then ''&zoom='' @ the zoom else [])))"

text \<open>
  The same in the \<open>catch\<close> block (lines 58 to 66), where the zoom goes through
  \<open>round3\<close>.
\<close>

definition format_fallback :: "(string \<times> string) list \<Rightarrow> string option" where
  "format_fallback sp =
     (if has sp ''lat'' \<and> has sp ''lng'' then
        let lat = parseFloat (the (get sp ''lat''));
            lng = parseFloat (the (get sp ''lng''))
        in if \<not> is_nan lat \<and> \<not> is_nan lng then
             let latS = round3 (JNum lat);
                 lngS = round3 (JNum lng);
                 zoom = zoom_of sp
             in Some (''wplace.live/?lat='' @ show_opt latS @ ''&lng='' @ show_opt lngS
                      @ (if truthy zoom then ''&zoom='' @ show_opt (round3 (JStr (the zoom)))
                         else []))
           else None
      else None)"

text \<open>The string given to \<open>new URL\<close> (line 40), and the query the fallback reads.\<close>

definition url_string :: "string \<Rightarrow> string" where
  "url_string matched =
     (if has_protocol matched then [] else ''https://'') @ strip_protocol_cs matched"

definition fallback_query :: "string \<Rightarrow> string option" where
  "fallback_query matched = after_first_question (strip_www (strip_protocol matched))"

text \<open>
  \<open>extractAndFormatUrl(text)\<close>. The fallback runs when, and only when, \<open>new URL\<close>
  throws: nothing else in the \<open>try\<close> block can, and nothing in the fallback does.
\<close>

definition extractAndFormatUrl :: "platform \<Rightarrow> string \<Rightarrow> string option" where
  "extractAndFormatUrl P txt =
     (if txt = [] then None
      else
        case re_url txt of
          None \<Rightarrow> None
        | Some matched \<Rightarrow>
            (case url_parse P (url_string matched) of
               Some u \<Rightarrow> format_structured (searchParams u)
             | None \<Rightarrow>
                 (case fallback_query matched of
                    None \<Rightarrow> None
                  | Some qs \<Rightarrow> format_fallback (URLSearchParams qs))))"

section \<open>The Action Interceptor\<close>

text \<open>
  The two regular expressions of the normalizer's \<open>catch\<close> block.
  \<open>/lat=([^&\s]+).*?lng=([^&\s]+)/i\<close>: after \<open>lat=\<close> the first group takes all it can
  and gives back character by character; the dot takes no line terminator and as little
  as possible; the second group takes all it can.
\<close>

definition line_terminator_at :: "string \<Rightarrow> bool" where
  "line_terminator_at s =
     list_ex (\<lambda>w. starts_with w s)
       [[CHR 0x0A], [CHR 0x0D], [CHR 0xE2, CHR 0x80, CHR 0xA8], [CHR 0xE2, CHR 0x80, CHR 0xA9]]"

fun find_lng :: "string \<Rightarrow> string option" where
  "find_lng [] = None"
| "find_lng (c # cs) =
     (if starts_with_ci ''lng='' (c # cs) \<and> param_run (drop 4 (c # cs)) \<noteq> []
      then Some (param_run (drop 4 (c # cs)))
      else if line_terminator_at (c # cs) then None
      else find_lng cs)"

definition char_boundary :: "string \<Rightarrow> nat \<Rightarrow> bool" where
  "char_boundary s n = (length s \<le> n \<or> byte (s ! n) < 0x80 \<or> 0xBF < byte (s ! n))"

definition match_lat_here :: "string \<Rightarrow> (string \<times> string) option" where
  "match_lat_here b =
     (case List.map_filter
             (\<lambda>n. if char_boundary b n then map_option (\<lambda>g. (take n b, g)) (find_lng (drop n b))
                   else None)
             (rev [1..<Suc (length (param_run b))]) of
        [] \<Rightarrow> None
      | m # _ \<Rightarrow> Some m)"

fun re_latlng :: "string \<Rightarrow> (string \<times> string) option" where
  "re_latlng [] = None"
| "re_latlng (c # cs) =
     (if starts_with_ci ''lat='' (c # cs) then
        (case match_lat_here (drop 4 (c # cs)) of None \<Rightarrow> re_latlng cs | Some m \<Rightarrow> Some m)
      else re_latlng cs)"

text \<open>\<open>/[?&]zoom=([^&\s]+)/i\<close>.\<close>

fun re_zoom :: "string \<Rightarrow> string option" where
  "re_zoom [] = None"
| "re_zoom (c # cs) =
     (if (c = CHR ''?'' \<or> c = CHR ''&'') \<and> starts_with_ci ''zoom='' cs \<and> param_run (drop 5 cs) \<noteq> []
      then Some (param_run (drop 5 cs))
      else re_zoom cs)"

text \<open>
  \<open>normalizeAndRoundUrl(raw)\<close>. With a parsed URL that has both parameters, the
  Normalized String, the coordinates through \<open>round3\<close> as strings; with a parsed URL
  that lacks one, host, path, query and fragment, less leading slashes. When \<open>new URL\<close>
  throws, the same from the regular expressions, or else the candidate without its
  protocol and without a leading \<open>//\<close>.
\<close>

definition normalizeAndRoundUrl :: "platform \<Rightarrow> string \<Rightarrow> string option" where
  "normalizeAndRoundUrl P raw =
     (if raw = [] then None
      else
        let hasProtocol = has_protocol raw;
            urlStr = (if hasProtocol then raw else ''https://'' @ raw)
        in case url_parse P urlStr of
             Some u \<Rightarrow>
               (let params = searchParams u
                in if has params ''lat'' \<and> has params ''lng'' then
                     let lat = round3 (JStr (the (get params ''lat'')));
                         lng = round3 (JStr (the (get params ''lng'')));
                         zoom = zoom_of params
                     in Some (''wplace.live/?lat='' @ show_opt lat @ ''&lng='' @ show_opt lng
                              @ (if truthy zoom then ''&zoom='' @ the zoom else []))
                   else
                     Some (dropWhile (\<lambda>c. c = CHR ''/'')
                             (url_host u @ url_pathname u @ url_search u @ url_hash u)))
           | None \<Rightarrow>
               (let s = strip_protocol raw
                in case re_latlng s of
                     Some (m1, m2) \<Rightarrow>
                       (let lat = round3 (JStr m1);
                            lng = round3 (JStr m2);
                            zoom = re_zoom s
                        in Some (''wplace.live/?lat='' @ show_opt lat @ ''&lng='' @ show_opt lng
                                 @ (if truthy zoom then ''&zoom='' @ the zoom else [])))
                   | None \<Rightarrow> Some (if starts_with ''//'' s then drop 2 s else s)))"

text \<open>\<open>/wplace\.live/i.test(s)\<close>, for any word in place of the domain.\<close>

fun contains_ci :: "string \<Rightarrow> string \<Rightarrow> bool" where
  "contains_ci w [] = starts_with_ci w []"
| "contains_ci w (c # cs) = (starts_with_ci w (c # cs) \<or> contains_ci w cs)"

text \<open>
  \<open>extractWplaceUrl(text)\<close> and \<open>findCandidateString(button)\<close>. The page enters by
  the texts the function reads, in the order it reads them: those of the button and of
  up to three ancestors, those of the candidates below the button's parent, and those of
  the candidates of the whole document.
\<close>

definition extractWplaceUrl :: "string \<Rightarrow> string option" where
  "extractWplaceUrl s = (if s = [] then None else re_url s)"

record click_context =
  ancestor_texts :: "string list"
  parent_texts :: "string list"
  page_texts :: "string list"

definition first_url :: "string list \<Rightarrow> string option" where
  "first_url ts =
     (case List.map_filter (\<lambda>t. case extractWplaceUrl t of None \<Rightarrow> None
                                  | Some u \<Rightarrow> if u = [] then None else Some u) ts of
        [] \<Rightarrow> None
      | u # _ \<Rightarrow> Some u)"

definition findCandidateString :: "click_context \<Rightarrow> string option" where
  "findCandidateString ctx =
     (case first_url (take 4 (ancestor_texts ctx)) of
        Some u \<Rightarrow> Some u
      | None \<Rightarrow>
          (case first_url (parent_texts ctx) of
             Some u \<Rightarrow> Some u
           | None \<Rightarrow> first_url (page_texts ctx)))"

text \<open>
  The click handler, by the branch it takes: no candidate, a candidate that normalizes
  to nothing, or the call \<open>copyToClipboardAndToast(normalized)\<close>. In the first two the
  handler calls \<open>copyToClipboardAndToast('No wplace link found')\<close>.
\<close>

datatype click_result = NoCandidate | NothingNormalized | Copies string

definition click_handler :: "platform \<Rightarrow> click_context \<Rightarrow> click_result" where
  "click_handler P ctx =
     (case findCandidateString ctx of
        None \<Rightarrow> NoCandidate
      | Some raw \<Rightarrow>
          if raw = [] then NoCandidate
          else
            (case normalizeAndRoundUrl P raw of
               None \<Rightarrow> NothingNormalized
             | Some normalized \<Rightarrow>
                 if normalized = [] then NothingNormalized else Copies normalized))"

section \<open>The page: nodes, the debounce map and the timers\<close>

text \<open>
  What the script reads of an element. \<open>el_value\<close> and \<open>innerText\<close> are
  \<open>None\<close> when the element has no such property (\<open>'value' in el\<close> is false); the two
  flags say whether assigning the string to the property throws (as it does for the
  value of a file input); \<open>attrs\<close> are the content attributes that \<open>getAttribute\<close> and
  \<open>setAttribute\<close> work on. Everything else of the element is the record's extension.
\<close>

record node =
  el_value :: "string option"
  el_value_throws :: bool
  innerText :: "string option"
  innerText_throws :: bool
  textContent :: string
  attrs :: "string \<rightharpoonup> string"

type_synonym node_id = nat
type_synonym timer_id = nat

text \<open>
  The state of the Sync Engine: the nodes of the page by identity, \<open>debounceMap\<close> (the
  script's \<open>WeakMap\<close> from element to timer handle), and the callbacks that
  \<open>setTimeout\<close> has registered and not yet run or cleared, each with the element and
  the string its closure holds. Timer handles are positive, as \<open>setTimeout\<close> returns
  them; \<open>next_timer\<close> is the next one.
\<close>

record 'a page =
  nodes :: "node_id \<rightharpoonup> 'a node_scheme"
  debounceMap :: "node_id \<rightharpoonup> timer_id"
  timers :: "timer_id \<rightharpoonup> node_id \<times> string"
  next_timer :: timer_id

text \<open>
  \<open>(el.value || el.getAttribute('value') || el.innerText || el.textContent || '').trim()\<close>
\<close>

definition current_text :: "'a node_scheme \<Rightarrow> string" where
  "current_text n =
     trim (case or_else (or_else (or_else (el_value n) (attrs n ''value'')) (innerText n))
                  (Some (textContent n)) of
             None \<Rightarrow> [] | Some s \<Rightarrow> s)"

text \<open>\<open>clearTimeout\<close>: the callback of that handle, if still pending, never runs.\<close>

definition clearTimeout :: "timer_id \<Rightarrow> 'a page \<Rightarrow> 'a page" where
  "clearTimeout t st = st\<lparr>timers := (timers st)(t := None)\<rparr>"

text \<open>
  \<open>applyFormattedIfNeeded(el, formatted)\<close>. A null element is an identity with no node
  in the page. The two early returns leave the state as it is; otherwise the pending
  timer of the element is cleared and a new one is registered and recorded.
\<close>

definition applyFormattedIfNeeded :: "node_id \<Rightarrow> string \<Rightarrow> 'a page \<Rightarrow> 'a page" where
  "applyFormattedIfNeeded el formatted st =
     (case nodes st el of
        None \<Rightarrow> st
      | Some n \<Rightarrow>
          if formatted = [] then st
          else if current_text n = formatted then st
          else
            let st1 = (case debounceMap st el of
                         None \<Rightarrow> st
                       | Some lastTimer \<Rightarrow> if lastTimer = 0 then st else clearTimeout lastTimer st);
                t = next_timer st1
            in st1\<lparr>timers := (timers st1)(t \<mapsto> (el, formatted)),
                   next_timer := Suc t,
                   debounceMap := (debounceMap st1)(el \<mapsto> t)\<rparr>)"

text \<open>
  The text of the \<open>title\<close> attribute the callback sets: the template literal of the
  script, byte for byte as the file has it.
\<close>

definition title_text :: "string \<Rightarrow> string" where
  "title_text formatted =
     ''formatted '' @ [CHR 0xC3, CHR 0xA2, CHR 0xE2, CHR 0x80, CHR 0xA0, CHR 0xE2, CHR 0x80, CHR 0x99]
       @ '' '' @ formatted"









text \<open>
  The same page once the host has performed the rewrite: the input shows the Normalized
  String and carries the title; a later Pending Rewrite of the same string is
  registered as timer 6.
\<close>

definition written_node :: node where
  "written_node =
     \<lparr>el_value = Some ''wplace.live/?lat=1.235&lng=2'', el_value_throws = False,
      innerText = None, innerText_throws = False, textContent = [],
      attrs = [''readonly'' \<mapsto> [],
               ''title'' \<mapsto> title_text ''wplace.live/?lat=1.235&lng=2'']\<rparr>"

definition written_page :: "unit page" where
  "written_page =
     \<lparr>nodes = [1 \<mapsto> written_node], debounceMap = [1 \<mapsto> 6],
      timers = [6 \<mapsto> (1, ''wplace.live/?lat=1.235&lng=2'')], next_timer = 7\<rparr>"

text \<open>
  A click on the button of the specification's end-to-end example: the texts of the
  button and of its ancestors have no link, a read-only node below the parent has one.
\<close>

definition example_click :: click_context where
  "example_click =
     \<lparr>ancestor_texts = [''Copy'', ''Share Copy''],
      parent_texts = [''Share'', ''http://www.wplace.live/?lat=10&lng=20''],
      page_texts = []\<rparr>"

section \<open>The extractor on concrete texts\<close>

text \<open>
  C6. The extraction example of the specification: the text
  \<open>visit https://wplace.live/?lat=12.345678&lng=-98.7654&zoom=5 now\<close> yields exactly
  \<open>wplace.live/?lat=12.346&lng=-98.765&zoom=5\<close>, whatever the platform's parameters.
\<close>

theorem extract_example:
  "extractAndFormatUrl P ''visit https://wplace.live/?lat=12.345678&lng=-98.7654&zoom=5 now''
     = Some ''wplace.live/?lat=12.346&lng=-98.765&zoom=5''"
  by code_simp

text \<open>
  C2. A latitude that parses to an infinite number does not make the extractor return
  null: \<open>round3\<close> returns null for it, the check before it only excludes NaN, and the
  template literal prints the null as a word.
\<close>

theorem extract_infinite_latitude:
  "extractAndFormatUrl P ''wplace.live/?lat=Infinity&lng=1'' = Some ''wplace.live/?lat=null&lng=1''"
  by code_simp

section \<open>The zoom parameter\<close>

text \<open>
  A link with a protocol in lower case reaches \<open>new URL\<close> without its protocol and the
  constructor throws: the extractor goes on to its fallback path, which finds the zoom of
  the fragment as it is written.
\<close>

lemma protocol_link_takes_fallback:
  "url_parse P (url_string ''https://wplace.live/?lat=1&lng=2&zoom=5.12345'') = None"
  "map_option (\<lambda>qs. get (URLSearchParams qs) ''zoom'')
     (fallback_query ''https://wplace.live/?lat=1&lng=2&zoom=5.12345'') = Some (Some ''5.12345'')"
  by code_simp+

lemma bare_link_takes_structured:
  "map_option (\<lambda>u. get (searchParams u) ''zoom'')
     (url_parse P (url_string ''wplace.live/?lat=1&lng=2&zoom=5.12345'')) = Some (Some ''5.12345'')"
  by code_simp

text \<open>
  C3. The zoom of the fragment is not always appended as found. For the link with the
  protocol the fallback path appends \<open>round3(zoom)\<close>: the zoom \<open>5.12345\<close> of the
  fragment comes out as \<open>5.123\<close>. The same fragment without the protocol is parsed by
  \<open>new URL\<close>, and the structured path appends the zoom as it is.
\<close>

theorem extract_zoom_rounded:
  "extractAndFormatUrl P ''https://wplace.live/?lat=1&lng=2&zoom=5.12345''
     = Some ''wplace.live/?lat=1&lng=2&zoom=5.123'' \<and>
   extractAndFormatUrl P ''wplace.live/?lat=1&lng=2&zoom=5.12345''
     = Some ''wplace.live/?lat=1&lng=2&zoom=5.12345''"
proof (intro conjI)
  show "extractAndFormatUrl P ''https://wplace.live/?lat=1&lng=2&zoom=5.12345''
     = Some ''wplace.live/?lat=1&lng=2&zoom=5.123''"
    by code_simp
  show "extractAndFormatUrl P ''wplace.live/?lat=1&lng=2&zoom=5.12345''
     = Some ''wplace.live/?lat=1&lng=2&zoom=5.12345''"
    by code_simp
qed

section \<open>Extracting from a Normalized String\<close>

text \<open>
  C1. The extractor is not idempotent. From \<open>wplace.live/?lat=1&lng=2&zoom=a%26b\<close> it
  returns a string that ends with the decoded zoom \<open>a&b\<close>, and from that string it
  returns another, in which the zoom is \<open>a\<close>. From \<open>wplace.live/?lat=Infinity&lng=1\<close>
  it returns \<open>wplace.live/?lat=null&lng=1\<close>, and from that string it returns null.
\<close>

theorem extract_not_idempotent:
  "extractAndFormatUrl P ''wplace.live/?lat=1&lng=2&zoom=a%26b''
     = Some ''wplace.live/?lat=1&lng=2&zoom=a&b'' \<and>
   extractAndFormatUrl P ''wplace.live/?lat=1&lng=2&zoom=a&b''
     = Some ''wplace.live/?lat=1&lng=2&zoom=a'' \<and>
   extractAndFormatUrl P ''wplace.live/?lat=Infinity&lng=1''
     = Some ''wplace.live/?lat=null&lng=1'' \<and>
   extractAndFormatUrl P ''wplace.live/?lat=null&lng=1'' = None"
proof (intro conjI)
  show "extractAndFormatUrl P ''wplace.live/?lat=1&lng=2&zoom=a%26b''
     = Some ''wplace.live/?lat=1&lng=2&zoom=a&b''"
    by code_simp
  show "extractAndFormatUrl P ''wplace.live/?lat=1&lng=2&zoom=a&b''
     = Some ''wplace.live/?lat=1&lng=2&zoom=a''"
    by code_simp
  show "extractAndFormatUrl P ''wplace.live/?lat=Infinity&lng=1''
     = Some ''wplace.live/?lat=null&lng=1''"
    by code_simp
  show "extractAndFormatUrl P ''wplace.live/?lat=null&lng=1'' = None"
    by code_simp
qed
section \<open>The fallback path and the structured path\<close>

lemma eval_fallback_7:
  "re_url ''https://wplace.live/?lat=1.23456&lng=2&zoom=7.00''
     = Some ''https://wplace.live/?lat=1.23456&lng=2&zoom=7.00''"
  "url_parse P (url_string ''https://wplace.live/?lat=1.23456&lng=2&zoom=7.00'') = None"
  "map_option URLSearchParams (fallback_query ''https://wplace.live/?lat=1.23456&lng=2&zoom=7.00'')
     = Some [(''lat'', ''1.23456''), (''lng'', ''2''), (''zoom'', ''7.00'')]"
  by code_simp+

lemma eval_structured_7:
  "re_url ''wplace.live/?lat=1.23456&lng=2&zoom=7.00''
     = Some ''wplace.live/?lat=1.23456&lng=2&zoom=7.00''"
  "map_option searchParams (url_parse P (url_string ''wplace.live/?lat=1.23456&lng=2&zoom=7.00''))
     = Some [(''lat'', ''1.23456''), (''lng'', ''2''), (''zoom'', ''7.00'')]"
  by code_simp+

lemma eval_format_7:
  "format_fallback [(''lat'', ''1.23456''), (''lng'', ''2''), (''zoom'', ''7.00'')]
     = Some ''wplace.live/?lat=1.235&lng=2&zoom=7''"
  "format_structured [(''lat'', ''1.23456''), (''lng'', ''2''), (''zoom'', ''7.00'')]
     = Some ''wplace.live/?lat=1.235&lng=2&zoom=7.00''"
  by code_simp+

lemma extract_structured:
  assumes "txt \<noteq> []" and "re_url txt = Some matched"
    and "map_option searchParams (url_parse P (url_string matched)) = Some params"
  shows "extractAndFormatUrl P txt = format_structured params"
  using assms by (auto simp: extractAndFormatUrl_def)

lemma extract_fallback:
  assumes "txt \<noteq> []" and "re_url txt = Some matched"
    and "url_parse P (url_string matched) = None"
    and "map_option URLSearchParams (fallback_query matched) = Some sp"
  shows "extractAndFormatUrl P txt = format_fallback sp"
  using assms by (auto simp: extractAndFormatUrl_def)

text \<open>
  C4. The fallback path does not produce what the structured path produces for the same
  parameter values. The link with the protocol makes \<open>new URL\<close> throw, the link
  without it parses, and both carry the same three parameters \<open>lat=1.23456\<close>,
  \<open>lng=2\<close> and \<open>zoom=7.00\<close> (the lemmas above); the fallback path ends its string with
  \<open>zoom=7\<close>, the structured path with \<open>zoom=7.00\<close>.
\<close>

theorem fallback_rounds_zoom:
  "extractAndFormatUrl P ''https://wplace.live/?lat=1.23456&lng=2&zoom=7.00''
     = Some ''wplace.live/?lat=1.235&lng=2&zoom=7'' \<and>
   extractAndFormatUrl P ''wplace.live/?lat=1.23456&lng=2&zoom=7.00''
     = Some ''wplace.live/?lat=1.235&lng=2&zoom=7.00''"
proof -
  have "extractAndFormatUrl P ''https://wplace.live/?lat=1.23456&lng=2&zoom=7.00''
          = Some ''wplace.live/?lat=1.235&lng=2&zoom=7''"
    using extract_fallback [OF _ eval_fallback_7(1) eval_fallback_7(2) eval_fallback_7(3)]
    by (simp add: eval_format_7)
  moreover have "extractAndFormatUrl P ''wplace.live/?lat=1.23456&lng=2&zoom=7.00''
          = Some ''wplace.live/?lat=1.235&lng=2&zoom=7.00''"
    using extract_structured [OF _ eval_structured_7(1) eval_structured_7(2)]
    by (simp add: eval_format_7)
  ultimately show ?thesis by simp
qed
section \<open>The normalizer of the Action Interceptor and the extractor\<close>

text \<open>
  Two candidates: each is a match of the link pattern as a whole. The second has a port
  that is out of range, with which \<open>new URL\<close> throws in the extractor and in the
  normalizer.
\<close>

lemma candidates_match:
  "re_url ''wplace.live/?lat=1x&lng=2'' = Some ''wplace.live/?lat=1x&lng=2''"
  "re_url ''wplace.live:99999/?lng=2&lat=1'' = Some ''wplace.live:99999/?lng=2&lat=1''"
  "url_parse P (url_string ''wplace.live:99999/?lng=2&lat=1'') = None"
  "url_parse P (''https://'' @ ''wplace.live:99999/?lng=2&lat=1'') = None"
  by code_simp+

text \<open>
  C5. The normalizer is not identical to the extractor on the candidates on which the
  extractor succeeds. The candidate \<open>wplace.live/?lat=1x&lng=2\<close> is a match of the link
  pattern; the extractor converts the latitude with \<open>parseFloat\<close> and returns
  \<open>lat=1\<close>, the normalizer hands the string to \<open>round3\<close>, which converts with
  \<open>Number\<close> and returns null, and prints the null. On \<open>wplace.live:99999/?lng=2&lat=1\<close>
  \<open>new URL\<close> throws in both; the extractor's fallback reads the two parameters, the
  normalizer's pattern wants \<open>lat\<close> before \<open>lng\<close> and the candidate is returned as it
  is.
\<close>

theorem normalizer_differs:
  "extractAndFormatUrl P ''wplace.live/?lat=1x&lng=2'' = Some ''wplace.live/?lat=1&lng=2'' \<and>
   normalizeAndRoundUrl P ''wplace.live/?lat=1x&lng=2'' = Some ''wplace.live/?lat=null&lng=2'' \<and>
   extractAndFormatUrl P ''wplace.live:99999/?lng=2&lat=1'' = Some ''wplace.live/?lat=1&lng=2'' \<and>
   normalizeAndRoundUrl P ''wplace.live:99999/?lng=2&lat=1''
     = Some ''wplace.live:99999/?lng=2&lat=1''"
proof (intro conjI)
  show "extractAndFormatUrl P ''wplace.live/?lat=1x&lng=2'' = Some ''wplace.live/?lat=1&lng=2''"
    by code_simp
  show "normalizeAndRoundUrl P ''wplace.live/?lat=1x&lng=2''
          = Some ''wplace.live/?lat=null&lng=2''"
    by code_simp
  show "extractAndFormatUrl P ''wplace.live:99999/?lng=2&lat=1''
          = Some ''wplace.live/?lat=1&lng=2''"
    by code_simp
  show "normalizeAndRoundUrl P ''wplace.live:99999/?lng=2&lat=1''
          = Some ''wplace.live:99999/?lng=2&lat=1''"
    by code_simp
qed
section \<open>The click handler always has something to copy\<close>

lemma length_lower [simp]: "length (lower s) = length s"
  by (simp add: lower_def)

lemma lower_append [simp]: "lower (a @ b) = lower a @ lower b"
  by (simp add: lower_def)

lemma lower_Cons [simp]: "lower (c # cs) = lower_char c # lower cs"
  by (simp add: lower_def)

lemma lower_Nil [simp]: "lower [] = []"
  by (simp add: lower_def)

lemma lower_eq_Nil [simp]: "lower w = [] \<longleftrightarrow> w = []" "[] = lower w \<longleftrightarrow> w = []"
  by (auto simp: lower_def)

lemma starts_with_ci_length: "starts_with_ci w s \<Longrightarrow> length w \<le> length s"
proof -
  assume "starts_with_ci w s"
  then have "length (lower (take (length w) s)) = length (lower w)"
    by (simp only: starts_with_ci_def)
  then show ?thesis by simp
qed

lemma contains_ci_here: "starts_with_ci w b \<Longrightarrow> contains_ci w b"
  by (cases b) simp_all

lemma contains_ci_append: "starts_with_ci w b \<Longrightarrow> contains_ci w (a @ b)"
  by (induction a) (simp_all add: contains_ci_here)

lemma contains_ci_nonempty: "contains_ci w s \<Longrightarrow> w \<noteq> [] \<Longrightarrow> s \<noteq> []"
  by (auto simp: starts_with_ci_def)

lemma starts_with_ci_tail:
  assumes "starts_with_ci (p @ w) s"
  shows "starts_with_ci w (drop (length p) (take (length p + length w) s) @ r)"
proof -
  define t where "t = take (length p + length w) s"
  define x where "x = drop (length p) t"
  from assms have l: "lower t = lower p @ lower w" by (simp add: starts_with_ci_def t_def)
  from starts_with_ci_length [OF assms] have n: "length t = length p + length w"
    by (simp add: t_def)
  have "lower x = drop (length p) (lower t)"
    by (simp add: lower_def drop_map x_def)
  also have "\<dots> = lower w" by (simp add: l)
  finally have d: "lower x = lower w" .
  have "length x = length w" using n by (simp add: x_def)
  then have "take (length w) (x @ r) = x" by simp
  then have "starts_with_ci w (x @ r)" by (simp add: starts_with_ci_def d)
  then show ?thesis by (simp only: x_def t_def)
qed

lemma re_url_here_token:
  assumes "re_url_here s = Some m"
  shows "contains_ci ''wplace.live'' m"
proof -
  from assms obtain p where
    f: "find (\<lambda>p. starts_with_ci (p @ ''wplace.live'') s) url_prefixes = Some p"
    and m: "m = take (length p + 11) s @ url_token (drop (length p + 11) s)"
    by (auto simp: re_url_here_def split: option.splits)
  from f have sw: "starts_with_ci (p @ ''wplace.live'') s" by (rule find_holds)
  define t where "t = take (length p + 11) s"
  define r where "r = url_token (drop (length p + 11) s)"
  have e: "length p + length ''wplace.live'' = length p + 11" by simp
  have "starts_with_ci ''wplace.live'' (drop (length p) t @ r)"
    using starts_with_ci_tail [OF sw, of r] unfolding e t_def .
  then have "contains_ci ''wplace.live'' (take (length p) t @ (drop (length p) t @ r))"
    by (rule contains_ci_append)
  moreover have "take (length p) t @ (drop (length p) t @ r) = t @ r"
    by (metis append_assoc append_take_drop_id)
  ultimately have "contains_ci ''wplace.live'' (t @ r)" by simp
  then show ?thesis by (simp only: m t_def r_def)
qed

lemma re_url_token: "re_url t = Some m \<Longrightarrow> contains_ci ''wplace.live'' m"
  by (induction t) (auto simp: re_url_here_token split: option.splits)

lemma map_filter_first:
  "List.map_filter f ts = u # us \<Longrightarrow> \<exists>t. f t = Some u"
  by (induction ts) (auto simp: List.map_filter_simps split: option.splits)

lemma first_url_token:
  assumes "first_url ts = Some u"
  shows "contains_ci ''wplace.live'' u"
proof -
  let ?f = "\<lambda>t. case extractWplaceUrl t of None \<Rightarrow> None
                   | Some u \<Rightarrow> if u = [] then None else Some u"
  from assms obtain us where "List.map_filter ?f ts = u # us"
    by (auto simp: first_url_def split: list.splits)
  then obtain t where "?f t = Some u" using map_filter_first by fast
  then have "re_url t = Some u"
    by (auto simp: extractWplaceUrl_def split: option.splits if_splits)
  then show ?thesis by (rule re_url_token)
qed

lemma findCandidateString_token:
  "findCandidateString ctx = Some raw \<Longrightarrow> contains_ci ''wplace.live'' raw"
  by (auto simp: findCandidateString_def first_url_token split: option.splits)

subsection \<open>A parsed special URL has a host\<close>

lemma byte_digit_char: "byte (digit_char d) = (48 + nat d) mod 256"
  by (simp add: byte_def digit_char_def)

lemma show_int_digits: "show_int n \<noteq> [] \<and> hd (show_int n) \<noteq> CHR ''/''"
proof (induction n rule: show_int.induct)
  case (1 n)
  show ?case
  proof (cases "n < 10")
    case True
    then have "byte (digit_char n) \<noteq> byte CHR ''/''"
      by (simp add: byte_digit_char) (simp add: byte_def)
    then have "digit_char n \<noteq> CHR ''/''" by auto
    then show ?thesis using True by (subst (1 2) show_int.simps) simp
  next
    case False
    with 1 show ?thesis by (subst (1 2) show_int.simps) simp
  qed
qed

lemma ipv4_parse_host:
  assumes "ipv4_parse a = Some r"
  shows "r \<noteq> [] \<and> hd r \<noteq> CHR ''/''"
proof -
  from assms obtain x rest where "r = show_int x @ rest"
    by (auto simp: ipv4_parse_def Let_def split: if_splits)
  moreover from show_int_digits [of x]
  have "show_int x \<noteq> []" and "hd (show_int x) \<noteq> CHR ''/''" by simp_all
  ultimately show ?thesis by simp
qed

lemma domain_to_ascii_nonempty: "domain_to_ascii P d = Some a \<Longrightarrow> a \<noteq> []"
  by (auto simp: domain_to_ascii_def Let_def split: if_splits)

lemma host_parse_host:
  assumes "host_parse P False h = Some r"
  shows "r \<noteq> [] \<and> hd r \<noteq> CHR ''/''"
proof (cases "starts_with ''['' h")
  case True
  with assms show ?thesis by (auto simp: host_parse_def split: if_splits)
next
  case False
  with assms obtain a where a: "domain_to_ascii P (utf8_decode (percent_decode h)) = Some a"
    and r: "\<not> list_ex forbidden_domain a"
           "r = a \<or> ipv4_parse a = Some r"
    by (auto simp: host_parse_def split: option.splits if_splits)
  from a have ne: "a \<noteq> []" by (rule domain_to_ascii_nonempty)
  then have "hd a \<in> set a" by simp
  with r(1) have "\<not> forbidden_domain (hd a)" by (auto simp: list_ex_iff)
  then have "hd a \<noteq> CHR ''/''" by (auto simp: forbidden_domain_def forbidden_host_def)
  with ne r(2) ipv4_parse_host show ?thesis by blast
qed

lemma parse_authority_host:
  assumes "parse_authority P sch s = Some u" and "is_special sch"
  shows "\<exists>h. hostname u = Some h \<and> h \<noteq> [] \<and> hd h \<noteq> CHR ''/''"
proof -
  from assms obtain h host p pa r where "host_parse P False h = Some host"
    and "u = finish_url sch (Some host) p pa r"
    by (auto simp: parse_authority_def Let_def split: prod.splits option.splits if_splits)
  then show ?thesis using host_parse_host by (auto simp: finish_url_def)
qed

lemma url_parse_host:
  assumes "url_parse P s = Some u" and "is_special (lower (takeWhile scheme_char (url_input s)))"
  shows "\<exists>h. hostname u = Some h \<and> h \<noteq> [] \<and> hd h \<noteq> CHR ''/''"
proof -
  let ?sch = "lower (takeWhile scheme_char (url_input s))"
  from assms(2) have "?sch \<noteq> ''file''" by (auto simp: is_special_def)
  with assms obtain a where "parse_authority P ?sch a = Some u"
    by (auto simp: url_parse_def Let_def split: list.splits if_splits)
  then show ?thesis using assms(2) by (rule parse_authority_host)
qed

subsection \<open>The scheme of the strings the normalizer parses\<close>

lemma byte_lower_char:
  "byte (lower_char c) = (if 65 \<le> byte c \<and> byte c \<le> 90 then byte c + 32 else byte c)"
  by (simp add: lower_char_def byte_def)

lemma char_eq_byte: "c = d \<longleftrightarrow> byte c = byte d"
  by (simp add: byte_def)

lemma byte_Char [simp]:
  "byte (Char b0 b1 b2 b3 b4 b5 b6 b7) = of_char (Char b0 b1 b2 b3 b4 b5 b6 b7)"
  by (simp only: byte_def)

lemma scheme_char_lower [simp]: "scheme_char (lower_char c) = scheme_char c"
  by (auto simp: scheme_char_def is_alpha_def is_digit_def byte_lower_char char_eq_byte)

lemma c0_lower [simp]: "byte (lower_char c) \<le> 0x20 \<longleftrightarrow> byte c \<le> 0x20"
  by (auto simp: byte_lower_char)

lemma tab_newline_lower [simp]:
  "lower_char c = CHR 0x09 \<longleftrightarrow> c = CHR 0x09"
  "lower_char c = CHR 0x0A \<longleftrightarrow> c = CHR 0x0A"
  "lower_char c = CHR 0x0D \<longleftrightarrow> c = CHR 0x0D"
  by (auto simp: byte_lower_char char_eq_byte)

lemma lower_takeWhile_scheme: "lower (takeWhile scheme_char s) = takeWhile scheme_char (lower s)"
  by (simp add: lower_def takeWhile_map comp_def)

lemma lower_url_input: "lower (url_input s) = url_input (lower s)"
  by (simp add: url_input_def lower_def filter_map dropWhile_map rev_map comp_def)

lemma dropWhile_append_keep:
  "ys \<noteq> [] \<Longrightarrow> \<not> P (hd ys) \<Longrightarrow> dropWhile P (xs @ ys) = dropWhile P xs @ ys"
  by (induction xs) (auto simp: neq_Nil_conv)

lemma url_input_https: "\<exists>y. url_input (''https://'' @ x) = ''https://'' @ y"
proof -
  have "dropWhile (\<lambda>c. byte c \<le> 0x20) (rev x @ rev ''https://'')
          = dropWhile (\<lambda>c. byte c \<le> 0x20) (rev x) @ rev ''https://''"
    by (rule dropWhile_append_keep) (simp_all add: byte_def)
  then show ?thesis by (simp add: url_input_def byte_def)
qed

lemma url_input_http: "\<exists>y. url_input (''http://'' @ x) = ''http://'' @ y"
proof -
  have "dropWhile (\<lambda>c. byte c \<le> 0x20) (rev x @ rev ''http://'')
          = dropWhile (\<lambda>c. byte c \<le> 0x20) (rev x) @ rev ''http://''"
    by (rule dropWhile_append_keep) (simp_all add: byte_def)
  then show ?thesis by (simp add: url_input_def byte_def)
qed

lemma scheme_https:
  assumes "lower s = ''https://'' @ x"
  shows "lower (takeWhile scheme_char (url_input s)) = ''https''"
proof -
  from url_input_https obtain y where "url_input (''https://'' @ x) = ''https://'' @ y" by blast
  then have "takeWhile scheme_char (url_input (lower s)) = ''https''"
    by (simp add: assms scheme_char_def is_alpha_def is_digit_def byte_def)
  then show ?thesis by (simp add: lower_takeWhile_scheme lower_url_input)
qed

lemma scheme_http:
  assumes "lower s = ''http://'' @ x"
  shows "lower (takeWhile scheme_char (url_input s)) = ''http''"
proof -
  from url_input_http obtain y where "url_input (''http://'' @ x) = ''http://'' @ y" by blast
  then have "takeWhile scheme_char (url_input (lower s)) = ''http''"
    by (simp add: assms scheme_char_def is_alpha_def is_digit_def byte_def)
  then show ?thesis by (simp add: lower_takeWhile_scheme lower_url_input)
qed

lemma starts_with_ci_lower:
  assumes "starts_with_ci w s"
  shows "lower s = lower w @ lower (drop (length w) s)"
proof -
  have "lower s = lower (take (length w) s @ drop (length w) s)" by simp
  also have "\<dots> = lower (take (length w) s) @ lower (drop (length w) s)" by (rule lower_append)
  finally show ?thesis using assms by (simp add: starts_with_ci_def)
qed

lemma lower_protocols: "lower ''https://'' = ''https://''" "lower ''http://'' = ''http://''"
  by (simp_all add: lower_char_def)

lemma protocol_lengths: "length ''https://'' = 8" "length ''http://'' = 7" "length ''//'' = 2"
  by simp_all

lemma normalizer_scheme:
  "is_special (lower (takeWhile scheme_char
     (url_input (if has_protocol raw then raw else ''https://'' @ raw))))"
proof (cases "has_protocol raw")
  case True
  then consider "starts_with_ci ''https://'' raw" | "starts_with_ci ''http://'' raw"
    by (auto simp: has_protocol_def)
  then show ?thesis
  proof cases
    case 1
    from starts_with_ci_lower [OF 1] obtain x where "lower raw = ''https://'' @ x"
      unfolding lower_protocols by blast
    then show ?thesis using True by (simp add: scheme_https is_special_def)
  next
    case 2
    from starts_with_ci_lower [OF 2] obtain x where "lower raw = ''http://'' @ x"
      unfolding lower_protocols by blast
    then show ?thesis using True by (simp add: scheme_http is_special_def)
  qed
next
  case False
  have "lower (''https://'' @ raw) = ''https://'' @ lower raw"
    by (simp add: lower_char_def)
  then show ?thesis using False by (simp add: scheme_https is_special_def)
qed

subsection \<open>The candidate keeps the domain when its protocol is stripped\<close>

lemma contains_ci_drop:
  "contains_ci w s \<Longrightarrow> w \<noteq> [] \<Longrightarrow> lower (take n s) = q \<Longrightarrow> length q = n \<Longrightarrow>
     hd (lower w) \<notin> set q \<Longrightarrow> contains_ci w (drop n s)"
proof (induction n arbitrary: s q)
  case 0
  then show ?case by simp
next
  case (Suc n)
  show ?case
  proof (cases s)
    case Nil
    with Suc.prems show ?thesis by simp
  next
    case (Cons c cs)
    with Suc.prems obtain q' where q: "q = lower_char c # q'" "lower (take n cs) = q'"
      by auto
    have "\<not> starts_with_ci w (c # cs)"
    proof
      assume "starts_with_ci w (c # cs)"
      then have "lower (take (length w) (c # cs)) = lower w" by (simp add: starts_with_ci_def)
      with Suc.prems(2) have "hd (lower w) = lower_char c"
        by (cases w) auto
      with Suc.prems(5) q show False by simp
    qed
    with Suc.prems(1) Cons have "contains_ci w cs" by simp
    moreover from Suc.prems q have "length q' = n" "hd (lower w) \<notin> set q'" by auto
    ultimately have "contains_ci w (drop n cs)"
      using Suc.IH [OF _ Suc.prems(2) q(2)] by blast
    with Cons show ?thesis by simp
  qed
qed

lemma strip_protocol_token:
  assumes "contains_ci ''wplace.live'' raw"
  shows "contains_ci ''wplace.live'' (strip_protocol raw)"
proof -
  have a: "contains_ci ''wplace.live'' (drop 8 raw)" if "starts_with_ci ''https://'' raw"
  proof (rule contains_ci_drop [OF assms, where q = "''https://''"])
    from that show "lower (take 8 raw) = ''https://''"
      unfolding starts_with_ci_def protocol_lengths lower_protocols .
  qed (simp_all add: lower_char_def)
  have b: "contains_ci ''wplace.live'' (drop 7 raw)" if "starts_with_ci ''http://'' raw"
  proof (rule contains_ci_drop [OF assms, where q = "''http://''"])
    from that show "lower (take 7 raw) = ''http://''"
      unfolding starts_with_ci_def protocol_lengths lower_protocols .
  qed (simp_all add: lower_char_def)
  show ?thesis using a b assms by (simp add: strip_protocol_def)
qed

lemma strip_slashes_token:
  assumes "contains_ci ''wplace.live'' s"
  shows "(if starts_with ''//'' s then drop 2 s else s) \<noteq> []"
proof (cases "starts_with ''//'' s")
  case True
  then have "take 2 s = ''//''"
    unfolding starts_with_def protocol_lengths .
  then have "lower (take 2 s) = ''//''"
    by (simp add: lower_char_def)
  then have "contains_ci ''wplace.live'' (drop 2 s)"
    by (intro contains_ci_drop [OF assms, where q = "''//''"]) (simp_all add: lower_char_def)
  then show ?thesis using True contains_ci_nonempty by fastforce
next
  case False
  then show ?thesis using assms contains_ci_nonempty by fastforce
qed

subsection \<open>The normalizer returns a string that is not empty\<close>

lemma url_host_hd:
  assumes "hostname u = Some h" and "h \<noteq> []" and "hd h \<noteq> CHR ''/''"
  shows "dropWhile (\<lambda>c. c = CHR ''/'') (url_host u @ x) \<noteq> []"
proof -
  from assms obtain c cs where "h = c # cs" and "c \<noteq> CHR ''/''" by (cases h) auto
  with assms(1) show ?thesis by (auto simp: url_host_def split: option.splits)
qed

lemma normalize_nonempty:
  assumes "contains_ci ''wplace.live'' raw"
  shows "\<exists>s. normalizeAndRoundUrl P raw = Some s \<and> s \<noteq> []"
proof -
  from assms have ne: "raw \<noteq> []" using contains_ci_nonempty by fastforce
  let ?urlStr = "if has_protocol raw then raw else ''https://'' @ raw"
  show ?thesis
  proof (cases "url_parse P ?urlStr")
    case (Some u)
    from url_parse_host [OF Some normalizer_scheme]
    obtain h where "hostname u = Some h" "h \<noteq> []" "hd h \<noteq> CHR ''/''" by blast
    then have "dropWhile (\<lambda>c. c = CHR ''/'')
                 (url_host u @ url_pathname u @ url_search u @ url_hash u) \<noteq> []"
      by (rule url_host_hd)
    with Some ne show ?thesis by (simp add: normalizeAndRoundUrl_def Let_def)
  next
    case None
    from assms have "contains_ci ''wplace.live'' (strip_protocol raw)"
      by (rule strip_protocol_token)
    then have "(if starts_with ''//'' (strip_protocol raw) then drop 2 (strip_protocol raw)
                else strip_protocol raw) \<noteq> []"
      by (rule strip_slashes_token)
    with None ne show ?thesis
      by (cases "re_latlng (strip_protocol raw)")
        (simp_all add: normalizeAndRoundUrl_def Let_def split: prod.splits)
  qed
qed

text \<open>
  C10. For every candidate that contains the domain, whatever its case, the normalizer
  returns a string that is not empty. The click handler therefore never takes its second
  failure branch, and it takes the first, the only other one without a link to copy,
  exactly when \<open>findCandidateString\<close> finds nothing.
\<close>

theorem click_handler_copies:
  "(contains_ci ''wplace.live'' raw \<longrightarrow> (\<exists>s. normalizeAndRoundUrl P raw = Some s \<and> s \<noteq> [])) \<and>
   click_handler P ctx \<noteq> NothingNormalized \<and>
   (click_handler P ctx = NoCandidate \<longleftrightarrow> findCandidateString ctx = None)"
proof (intro conjI impI)
  assume "contains_ci ''wplace.live'' raw"
  then show "\<exists>s. normalizeAndRoundUrl P raw = Some s \<and> s \<noteq> []" by (rule normalize_nonempty)
next
  show "click_handler P ctx \<noteq> NothingNormalized"
  proof (cases "findCandidateString ctx")
    case None
    then show ?thesis by (simp add: click_handler_def)
  next
    case (Some c)
    then have "contains_ci ''wplace.live'' c" by (rule findCandidateString_token)
    from normalize_nonempty [OF this, of P] Some show ?thesis
      by (auto simp: click_handler_def)
  qed
next
  show "click_handler P ctx = NoCandidate \<longleftrightarrow> findCandidateString ctx = None"
  proof (cases "findCandidateString ctx")
    case None
    then show ?thesis by (simp add: click_handler_def)
  next
    case (Some c)
    then have t: "contains_ci ''wplace.live'' c" by (rule findCandidateString_token)
    then have "c \<noteq> []" using contains_ci_nonempty by fastforce
    with normalize_nonempty [OF t, of P] Some show ?thesis
      by (auto simp: click_handler_def)
  qed
qed

lemma eval_example_click:
  "findCandidateString example_click = Some ''http://www.wplace.live/?lat=10&lng=20''"
  "contains_ci ''wplace.live'' ''http://www.wplace.live/?lat=10&lng=20''"
  by code_simp+

theorem click_handler_copies_witness:
  "(\<exists>s. normalizeAndRoundUrl no_platform ''http://www.wplace.live/?lat=10&lng=20'' = Some s
        \<and> s \<noteq> []) \<and>
   click_handler no_platform example_click \<noteq> NothingNormalized \<and>
   click_handler no_platform example_click \<noteq> NoCandidate"
proof -
  note t = click_handler_copies [of "''http://www.wplace.live/?lat=10&lng=20''" no_platform
      example_click]
  from t eval_example_click(2)
  have a: "\<exists>s. normalizeAndRoundUrl no_platform ''http://www.wplace.live/?lat=10&lng=20'' = Some s
             \<and> s \<noteq> []"
    by blast
  from t have b: "click_handler no_platform example_click \<noteq> NothingNormalized"
    by blast
  from t have "click_handler no_platform example_click = NoCandidate
                 \<longleftrightarrow> findCandidateString example_click = None"
    by blast
  then have c: "click_handler no_platform example_click \<noteq> NoCandidate"
    by (simp add: eval_example_click(1))
  from a b c show ?thesis by blast
qed

section \<open>The rounding error of a double\<close>

lemma pow2_powi: "pow2 e = 2 powi e"
  by (simp add: pow2_def power_int_def inverse_eq_divide power_one_over)

lemma pow2_pos [simp]: "0 < pow2 e"
  by (simp add: pow2_powi)

lemma pow2_mono: "a \<le> b \<Longrightarrow> pow2 a \<le> pow2 b"
  by (simp add: pow2_powi power_int_increasing)

lemma pow2_diff: "pow2 (a - b) = pow2 a / pow2 b"
  by (simp add: pow2_powi power_int_diff)

lemma binade_bounds:
  assumes "0 < q"
  shows "pow2 (binade q) \<le> q \<and> q < pow2 (binade q + 1)"
proof (cases "1 \<le> q")
  case True
  define n where "n = \<lfloor>q\<rfloor>"
  have n1: "1 \<le> n" using True by (simp add: n_def)
  from bitlen_bounds [of n] n1
  have b: "2 ^ nat (bitlen n - 1) \<le> n" "n < 2 ^ nat (bitlen n)" by simp_all
  have bl: "1 \<le> bitlen n" using n1 by (simp add: bitlen_alt_def)
  have e: "binade q = bitlen n - 1" using True by (simp add: binade_def n_def)
  have "pow2 (bitlen n - 1) = of_int (2 ^ nat (bitlen n - 1))"
    using bl by (simp add: pow2_def)
  also have "\<dots> \<le> of_int n" using b(1) by (simp only: of_int_le_iff)
  also have "\<dots> \<le> q" by (simp add: n_def)
  finally have lo: "pow2 (binade q) \<le> q" by (simp add: e)
  have "q < of_int \<lfloor>q\<rfloor> + 1" by linarith
  then have "q < of_int (n + 1)" by (simp add: n_def)
  also have "\<dots> \<le> of_int (2 ^ nat (bitlen n))"
  proof -
    from b(2) have "n + 1 \<le> 2 ^ nat (bitlen n)" by simp
    then show ?thesis by (simp only: of_int_le_iff)
  qed
  also have "\<dots> = pow2 (bitlen n)" using bl by (simp add: pow2_def)
  finally have "q < pow2 (binade q + 1)" by (simp add: e)
  with lo show ?thesis ..
next
  case False
  define r where "r = 1 / q"
  define n where "n = \<lceil>r\<rceil> - 1"
  have r1: "1 < r" using False assms by (simp add: r_def)
  have q: "q = 1 / r" by (simp add: r_def)
  have n1: "1 \<le> n" using r1 by (simp add: n_def less_ceiling_iff)
  have nr: "of_int n < r" "r \<le> of_int n + 1"
    by (simp_all add: n_def) linarith+
  from bitlen_bounds [of n] n1
  have b: "2 ^ nat (bitlen n - 1) \<le> n" "n < 2 ^ nat (bitlen n)" by simp_all
  have bl: "1 \<le> bitlen n" using n1 by (simp add: bitlen_alt_def)
  have e: "binade q = - bitlen n" using False by (simp add: binade_def n_def r_def)
  have "r \<le> of_int (n + 1)" using nr(2) by simp
  also have "\<dots> \<le> of_int (2 ^ nat (bitlen n))"
  proof -
    from b(2) have "n + 1 \<le> 2 ^ nat (bitlen n)" by simp
    then show ?thesis by (simp only: of_int_le_iff)
  qed
  finally have "r \<le> 2 ^ nat (bitlen n)" by simp
  then have "1 / 2 ^ nat (bitlen n) \<le> 1 / r" using r1 by (simp add: frac_le)
  moreover have "pow2 (- bitlen n) = 1 / 2 ^ nat (bitlen n)" using bl by (simp add: pow2_def)
  ultimately have "pow2 (- bitlen n) \<le> 1 / r" by simp
  then have lo: "pow2 (binade q) \<le> q" unfolding e by (simp add: r_def)
  have "(2::rat) ^ nat (bitlen n - 1) = of_int (2 ^ nat (bitlen n - 1))" by simp
  also have "\<dots> \<le> of_int n" using b(1) by (simp only: of_int_le_iff)
  also have "\<dots> < r" by (rule nr(1))
  finally have "(2::rat) ^ nat (bitlen n - 1) < r" .
  then have "1 / r < 1 / 2 ^ nat (bitlen n - 1)" by (simp add: frac_less2)
  moreover have "pow2 (- bitlen n + 1) = 1 / 2 ^ nat (bitlen n - 1)"
    using bl by (auto simp: pow2_def)
  ultimately have "1 / r < pow2 (- bitlen n + 1)" by simp
  then have "q < pow2 (binade q + 1)" unfolding e by (simp add: r_def)
  with lo show ?thesis ..
qed

lemma round_half_even_error: "\<bar>of_int (round_half_even x) - x\<bar> \<le> 1 / 2"
proof -
  have "of_int \<lfloor>x\<rfloor> \<le> x" "x < of_int \<lfloor>x\<rfloor> + 1" by linarith+
  then show ?thesis
    by (auto simp: round_half_even_def Let_def abs_le_iff)
qed

lemma round_half_even_nonneg: "0 \<le> x \<Longrightarrow> 0 \<le> round_half_even x"
  by (auto simp: round_half_even_def Let_def)

text \<open>
  The double of a rational of moderate size is finite, has the sign of the rational, and
  is off by at most the fraction \<open>2 ^ - 53\<close> of the magnitude plus one.
\<close>

lemma to_double_error:
  assumes "\<bar>q\<bar> \<le> 10 ^ 16"
  shows "\<exists>v. to_double q = Fin v \<and> \<bar>v - q\<bar> \<le> (\<bar>q\<bar> + 1) / 2 ^ 53
             \<and> (0 \<le> q \<longrightarrow> 0 \<le> v) \<and> (q \<le> 0 \<longrightarrow> v \<le> 0)"
proof (cases "q = 0")
  case True
  then show ?thesis by (simp add: to_double_def)
next
  case False
  define m where "m = \<bar>q\<bar>"
  define e where "e = max (binade m) (- 1022)"
  define u where "u = pow2 (e - 52)"
  define k where "k = round_half_even (m / u)"
  define v where "v = of_int k * u"
  have m0: "0 < m" using False by (simp add: m_def)
  have u0: "0 < u" by (simp add: u_def)
  have u_le: "u \<le> (m + 1) / 2 ^ 52"
  proof (cases "- 1022 \<le> binade m")
    case True
    then have "u = pow2 (binade m) / pow2 52" by (simp add: u_def e_def pow2_diff)
    also have "\<dots> \<le> m / pow2 52"
    proof (rule divide_right_mono)
      from binade_bounds [OF m0] show "pow2 (binade m) \<le> m" ..
    qed (simp add: less_imp_le)
    also have "\<dots> \<le> (m + 1) / 2 ^ 52" by (simp add: pow2_def divide_right_mono)
    finally show ?thesis .
  next
    case False
    then have "u = pow2 (- 1074)" by (simp add: u_def e_def)
    also have "\<dots> \<le> pow2 (- 52)" by (rule pow2_mono) simp
    also have "\<dots> = 1 / 2 ^ 52" by (simp add: pow2_def)
    also have "\<dots> \<le> (m + 1) / 2 ^ 52" using m0 by (simp add: divide_right_mono)
    finally show ?thesis .
  qed
  have "\<bar>of_int k - m / u\<bar> \<le> 1 / 2" unfolding k_def by (rule round_half_even_error)
  then have "\<bar>of_int k - m / u\<bar> * u \<le> 1 / 2 * u" using u0 by (simp add: mult_right_mono)
  moreover have "v - m = (of_int k - m / u) * u"
    using u0 by (simp add: v_def left_diff_distrib)
  then have "\<bar>of_int k - m / u\<bar> * u = \<bar>v - m\<bar>"
    using u0 by (simp add: abs_mult)
  ultimately have "\<bar>v - m\<bar> \<le> u / 2" by simp
  also have "\<dots> \<le> (m + 1) / 2 ^ 52 / 2" using u_le by simp
  finally have err: "\<bar>v - m\<bar> \<le> (m + 1) / 2 ^ 53" by simp
  have v0: "0 \<le> v"
    using round_half_even_nonneg [of "m / u"] m0 u0 by (simp add: v_def k_def)
  have fin: "\<not> (v \<noteq> 0 \<and> 1024 \<le> binade v)"
  proof
    assume a: "v \<noteq> 0 \<and> 1024 \<le> binade v"
    with v0 have "0 < v" by simp
    from binade_bounds [OF this] have "pow2 (binade v) \<le> v" ..
    moreover from a have "pow2 1024 \<le> pow2 (binade v)" by (intro pow2_mono) simp
    ultimately have "pow2 1024 \<le> v" by simp
    moreover define x where "x = (m + 1) / 2 ^ 53"
    from err have "v - m \<le> x" unfolding x_def by (simp only: abs_le_iff)
    moreover have "x \<le> (m + 1) / 1"
      unfolding x_def by (rule divide_left_mono) (use m0 in simp_all)
    then have "x \<le> m + 1" by simp
    moreover have "m \<le> 10 ^ 16" using assms by (simp add: m_def)
    ultimately have "pow2 1024 \<le> 2 * 10 ^ 16 + 1" by linarith
    then show False by (simp add: pow2_def)
  qed
  have "to_double q = (if v \<noteq> 0 \<and> 1024 \<le> binade v then (if q < 0 then NegInf else PosInf)
                       else Fin (if q < 0 then - v else v))"
    unfolding to_double_def Let_def v_def k_def u_def e_def m_def
    using False by (simp only: if_False)
  then have td: "to_double q = Fin (if q < 0 then - v else v)"
    using fin by (simp only: if_False)
  show ?thesis
  proof (cases "q < 0")
    case True
    then have a: "\<bar>- v - q\<bar> = \<bar>v - m\<bar>" by (simp add: m_def abs_minus_commute)
    show ?thesis
    proof (intro exI conjI impI)
      show "to_double q = Fin (- v)" using td True by simp
      show "\<bar>- v - q\<bar> \<le> (\<bar>q\<bar> + 1) / 2 ^ 53" using err unfolding a m_def .
      show "0 \<le> - v" if "0 \<le> q" using that True by simp
      show "- v \<le> 0" using v0 by simp
    qed
  next
    case False
    then have a: "\<bar>v - q\<bar> = \<bar>v - m\<bar>" by (simp add: m_def)
    show ?thesis
    proof (intro exI conjI impI)
      show "to_double q = Fin v" using td False by simp
      show "\<bar>v - q\<bar> \<le> (\<bar>q\<bar> + 1) / 2 ^ 53" using err unfolding a m_def .
      show "0 \<le> v" by (rule v0)
      show "v \<le> 0" if "q \<le> 0" using that False \<open>q \<noteq> 0\<close> by simp
    qed
  qed
qed


section \<open>The digits of round3\<close>

lemma byte_digit: "d < 10 \<Longrightarrow> byte (digit_char d) = 48 + nat d"
  by (simp add: byte_digit_char)

lemma digit_char_0: "digit_char 0 = CHR ''0''"
  by (simp add: char_eq_byte byte_digit_char)

lemma is_digit_digit_char: "d < 10 \<Longrightarrow> is_digit (digit_char d)"
  by (simp add: is_digit_def byte_digit)

lemma digit_char_eq_0: "0 \<le> d \<Longrightarrow> d < 10 \<Longrightarrow> digit_char d = CHR ''0'' \<longleftrightarrow> d = 0"
  by (simp add: char_eq_byte byte_digit)

lemma is_digit_not_dot: "is_digit c \<Longrightarrow> c \<noteq> CHR ''.''"
  by (auto simp: is_digit_def)

lemma show_int_all_digits: "list_all is_digit (show_int n)"
proof (induction n rule: show_int.induct)
  case (1 n)
  show ?case
  proof (cases "n < 10")
    case True
    then show ?thesis by (subst show_int.simps) (simp add: is_digit_digit_char)
  next
    case False
    with 1 show ?thesis by (subst show_int.simps) (simp add: is_digit_digit_char)
  qed
qed

lemma show_int_no_dot: "CHR ''.'' \<notin> set (show_int n)"
  using show_int_all_digits [of n] is_digit_not_dot by (auto simp: list_all_iff)

lemma div100_10: "(n::int) div 100 div 10 = n div 1000"
  using zdiv_zmult2_eq [of 10 n 100] by simp

lemma div10_10: "(n::int) div 10 div 10 = n div 100"
  using zdiv_zmult2_eq [of 10 n 10] by simp

lemma mod1000_div100: "(n::int) mod 1000 div 100 = n div 100 mod 10"
  using zmod_zmult2_eq [of 10 n 100] by simp

lemma mod1000_mod10: "(n::int) mod 1000 mod 10 = n mod 10"
  by (simp add: mod_mod_cancel)

lemma mod1000_div10: "(n::int) mod 1000 div 10 mod 10 = n div 10 mod 10"
proof -
  have "n mod 1000 = 10 * (n div 10 mod 100) + n mod 10"
    using zmod_zmult2_eq [of 100 n 10] by simp
  then have "n mod 1000 div 10 = n div 10 mod 100" by simp
  then show ?thesis by (simp add: mod_mod_cancel)
qed

lemma three_digits:
  assumes "0 \<le> (f::int)" and "f < 1000"
  shows "0 \<le> f div 100" "f div 100 < 10" "0 \<le> f div 10 mod 10" "f div 10 mod 10 < 10"
    "0 \<le> f mod 10" "f mod 10 < 10"
    "f = 0 \<longleftrightarrow> f div 100 = 0 \<and> f div 10 mod 10 = 0 \<and> f mod 10 = 0"
proof -
  define a b c where "a = f div 100" and "b = f div 10 mod 10" and "c = f mod 10"
  show a: "0 \<le> f div 100" using assms(1) by (simp add: pos_imp_zdiv_nonneg_iff)
  show "f div 100 < 10" using assms(2) by (simp add: zdiv_zmult2_eq div_less_iff_less_mult)
  show b: "0 \<le> f div 10 mod 10" by simp
  show "f div 10 mod 10 < 10" by simp
  show c: "0 \<le> f mod 10" by simp
  show "f mod 10 < 10" by simp
  have "f = 10 * (f div 10) + f mod 10" by simp
  moreover have "f div 10 = 10 * (f div 10 div 10) + f div 10 mod 10" by simp
  ultimately have "f = 10 * (10 * (f div 100) + f div 10 mod 10) + f mod 10"
    by (simp only: div10_10)
  then have "f = 100 * a + 10 * b + c" by (simp add: a_def b_def c_def)
  moreover have "0 \<le> a" "0 \<le> b" "0 \<le> c" using a b c by (simp_all add: a_def b_def c_def)
  ultimately have "f = 0 \<longleftrightarrow> a = 0 \<and> b = 0 \<and> c = 0" by linarith
  then show "f = 0 \<longleftrightarrow> f div 100 = 0 \<and> f div 10 mod 10 = 0 \<and> f mod 10 = 0"
    by (simp only: a_def b_def c_def)
qed

lemma show_int_1: "n < 10 \<Longrightarrow> show_int n = [digit_char n]"
  by (subst show_int.simps) simp

lemma show_int_2: "10 \<le> n \<Longrightarrow> show_int n = show_int (n div 10) @ [digit_char (n mod 10)]"
  by (subst show_int.simps) simp

lemma show_int_3:
  assumes "100 \<le> n"
  shows "show_int n = show_int (n div 100) @ [digit_char (n div 10 mod 10), digit_char (n mod 10)]"
proof -
  from assms have "10 \<le> n" and "10 \<le> n div 10" by simp_all
  then have "show_int n = (show_int (n div 10 div 10) @ [digit_char (n div 10 mod 10)])
                           @ [digit_char (n mod 10)]"
    by (simp only: show_int_2 [of n] show_int_2 [of "n div 10"])
  then show ?thesis by (simp only: div10_10 append_assoc append_Cons append_Nil)
qed

lemma show_int_4:
  assumes "1000 \<le> n"
  shows "show_int n = show_int (n div 1000) @ frac3 (n mod 1000)"
proof -
  from assms have a: "100 \<le> n" and b: "10 \<le> n div 100" by simp_all
  have "show_int n = (show_int (n div 100 div 10) @ [digit_char (n div 100 mod 10)])
                      @ [digit_char (n div 10 mod 10), digit_char (n mod 10)]"
    by (simp only: show_int_3 [OF a] show_int_2 [OF b])
  also have "\<dots> = show_int (n div 1000) @
      [digit_char (n div 100 mod 10), digit_char (n div 10 mod 10), digit_char (n mod 10)]"
    by (simp only: div100_10 append_assoc append_Cons append_Nil)
  also have "[digit_char (n div 100 mod 10), digit_char (n div 10 mod 10), digit_char (n mod 10)]
      = frac3 (n mod 1000)"
    by (simp only: frac3_def mod1000_div100 mod1000_div10 mod1000_mod10)
  finally show ?thesis .
qed

lemma length_frac3: "length (frac3 f) = 3"
  by (simp add: frac3_def)

lemma length_show_int_4:
  assumes "1000 \<le> n"
  shows "4 \<le> length (show_int n)"
proof -
  have "show_int (n div 1000) \<noteq> []" using show_int_digits [of "n div 1000"] by simp
  then have "1 \<le> length (show_int (n div 1000))" by (cases "show_int (n div 1000)") simp_all
  then show ?thesis unfolding show_int_4 [OF assms] length_append length_frac3 by simp
qed

lemma show_int_padded:
  assumes "0 \<le> n"
  shows "replicate (4 - length (show_int n)) CHR ''0'' @ show_int n
           = show_int (n div 1000) @ frac3 (n mod 1000)"
proof -
  consider "n < 10" | "10 \<le> n" "n < 100" | "100 \<le> n" "n < 1000" | "1000 \<le> n" by linarith
  then show ?thesis
  proof cases
    case 1
    then show ?thesis using assms
      by (simp add: show_int_1 frac3_def digit_char_0 numeral_eq_Suc)
  next
    case 2
    then have "n div 10 < 10 \<and> n div 100 = 0 \<and> n div 1000 = 0 \<and> n mod 1000 = n
        \<and> n div 10 mod 10 = n div 10" by simp
    then show ?thesis using 2 assms
      by (simp add: show_int_2 [of n] show_int_1 frac3_def digit_char_0 numeral_eq_Suc)
  next
    case 3
    then have "n div 100 < 10 \<and> n div 1000 = 0 \<and> n mod 1000 = n" by simp
    then show ?thesis using 3 assms
      by (simp add: show_int_3 [of n] show_int_1 frac3_def digit_char_0 numeral_eq_Suc)
  next
    case 4
    from length_show_int_4 [OF 4] have "4 - length (show_int n) = 0" by simp
    then show ?thesis by (simp add: show_int_4 [OF 4])
  qed
qed

lemma toFixed3_digits:
  assumes "\<bar>y\<bar> < 10 ^ 21"
  shows "toFixed3 (Fin y) = (if y < 0 then ''-'' else []) @ show_int (\<lfloor>\<bar>y\<bar> * 1000 + 1 / 2\<rfloor> div 1000)
           @ ''.'' @ frac3 (\<lfloor>\<bar>y\<bar> * 1000 + 1 / 2\<rfloor> mod 1000)"
proof -
  define n where "n = \<lfloor>\<bar>y\<bar> * 1000 + 1 / 2\<rfloor>"
  define m where "m = replicate (4 - length (show_int n)) CHR ''0'' @ show_int n"
  have "0 \<le> n" by (simp add: n_def)
  then have m: "m = show_int (n div 1000) @ frac3 (n mod 1000)"
    unfolding m_def by (rule show_int_padded)
  have l: "length m - 3 = length (show_int (n div 1000))" by (simp add: m frac3_def)
  have t: "take (length m - 3) m = show_int (n div 1000)"
    and d: "drop (length m - 3) m = frac3 (n mod 1000)"
    unfolding l by (simp_all add: m)
  have c: "\<not> (10 ^ 21 \<le> \<bar>y\<bar>)" using assms by (simp only: not_le)
  have "toFixed3 (Fin y) = (if y < 0 then ''-'' else []) @
          (take (length m - 3) m @ ''.'' @ drop (length m - 3) m)"
    unfolding toFixed3_def Let_def m_def n_def by (simp only: jsnum.case c if_False)
  then show ?thesis by (simp only: t d n_def)
qed

lemma strip_zeros_prefix: "CHR ''.'' \<notin> set xs \<Longrightarrow> strip_zeros (xs @ ys) = xs @ strip_zeros ys"
  by (induction xs) auto

lemma strip_zeros_frac3:
  assumes "0 \<le> f" and "f < 1000"
  shows "strip_zeros (''.'' @ frac3 f)
           = (if f = 0 then [] else ''.'' @ rev (dropWhile (\<lambda>d. d = CHR ''0'') (rev (frac3 f))))"
proof -
  define a b c where "a = f div 100" and "b = f div 10 mod 10" and "c = f mod 10"
  have r: "0 \<le> a" "a < 10" "0 \<le> b" "b < 10" "0 \<le> c" "c < 10"
    using three_digits(1-6) [OF assms] unfolding a_def b_def c_def by simp_all
  have z: "f = 0 \<longleftrightarrow> a = 0 \<and> b = 0 \<and> c = 0"
    using three_digits(7) [OF assms] unfolding a_def b_def c_def .
  have d: "is_digit (digit_char a)" "is_digit (digit_char b)" "is_digit (digit_char c)"
    using r by (simp_all add: is_digit_digit_char)
  have nd: "digit_char a \<noteq> CHR ''.''" "digit_char b \<noteq> CHR ''.''" "digit_char c \<noteq> CHR ''.''"
    using d is_digit_not_dot by blast+
  have f: "frac3 f = [digit_char a, digit_char b, digit_char c]"
    by (simp add: frac3_def a_def b_def c_def)
  show ?thesis
    unfolding f using r d nd by (auto simp: z digit_char_eq_0)
qed

lemma strip_zeros_fixed:
  assumes "0 \<le> n" and "CHR ''.'' \<notin> set sg"
  shows "strip_zeros (sg @ show_int (n div 1000) @ ''.'' @ frac3 (n mod 1000))
           = sg @ show_int (n div 1000) @
             (if n mod 1000 = 0 then []
              else ''.'' @ rev (dropWhile (\<lambda>d. d = CHR ''0'') (rev (frac3 (n mod 1000)))))"
proof -
  have "CHR ''.'' \<notin> set (sg @ show_int (n div 1000))"
    using assms(2) show_int_no_dot by simp
  then have "strip_zeros ((sg @ show_int (n div 1000)) @ (''.'' @ frac3 (n mod 1000)))
          = (sg @ show_int (n div 1000)) @ strip_zeros (''.'' @ frac3 (n mod 1000))"
    by (rule strip_zeros_prefix)
  moreover have "0 \<le> n mod 1000" "n mod 1000 < 1000" by simp_all
  ultimately show ?thesis using strip_zeros_frac3 [of "n mod 1000"] by simp
qed


section \<open>What round3 returns\<close>

lemma floor_near:
  fixes x :: rat
  assumes "\<bar>x - of_int K\<bar> < 1 / 2"
  shows "\<lfloor>x + 1 / 2\<rfloor> = K"
proof (rule floor_unique)
  show "of_int K \<le> x + 1 / 2" using assms by linarith
  show "x + 1 / 2 < of_int K + 1" using assms by linarith
qed

lemma of_int_abs_bound:
  fixes k :: int
  assumes "\<bar>k\<bar> \<le> 10 ^ 15 + 2"
  shows "\<bar>(of_int k :: rat)\<bar> \<le> 10 ^ 15 + 2"
proof -
  from assms have "(of_int \<bar>k\<bar> :: rat) \<le> of_int (10 ^ 15 + 2)" by (simp only: of_int_le_iff)
  then show ?thesis by simp
qed

lemma small_error:
  fixes k :: int
  assumes "\<bar>k\<bar> \<le> 10 ^ 15 + 2"
  shows "(\<bar>of_int k / 1000\<bar> + 1) / 2 ^ 53 < (1 / 2000 :: rat)"
proof -
  have "\<bar>(of_int k :: rat)\<bar> \<le> 10 ^ 15 + 2"
    using assms by (rule of_int_abs_bound)
  then have "\<bar>of_int k / 1000 :: rat\<bar> + 1 \<le> (10 ^ 15 + 2) / 1000 + 1" by simp
  then have "(\<bar>of_int k / 1000 :: rat\<bar> + 1) / 2 ^ 53 \<le> ((10 ^ 15 + 2) / 1000 + 1) / 2 ^ 53"
    by (simp add: divide_right_mono)
  also have "\<dots> < (1 / 2000 :: rat)" by simp
  finally show ?thesis .
qed

text \<open>
  Dividing an integer of thousandths by 1000 and printing the double with three decimals
  gives the digits of the integer again.
\<close>

lemma toFixed3_thousandths:
  fixes k :: int
  assumes "\<bar>k\<bar> \<le> 10 ^ 15 + 2"
  shows "strip_zeros (toFixed3 (js_over (Fin (of_int k)) 1000)) = decimal3 k"
proof -
  have "\<bar>(of_int k :: rat)\<bar> \<le> 10 ^ 15 + 2"
    using assms by (rule of_int_abs_bound)
  then have "\<bar>of_int k / 1000 :: rat\<bar> \<le> 10 ^ 16" by simp
  from to_double_error [OF this] obtain v where
    v: "to_double (of_int k / 1000) = Fin v"
    and e: "\<bar>v - of_int k / 1000\<bar> \<le> (\<bar>of_int k / 1000\<bar> + 1) / 2 ^ 53"
    and p: "0 \<le> (of_int k / 1000 :: rat) \<longrightarrow> 0 \<le> v"
    and m: "(of_int k / 1000 :: rat) \<le> 0 \<longrightarrow> v \<le> 0"
    by blast
  from e small_error [OF assms] have e2: "\<bar>v - of_int k / 1000\<bar> < 1 / 2000" by linarith
  then have e3: "\<bar>v * 1000 - of_int k\<bar> < 1 / 2" by linarith
  have sg: "v < 0 \<longleftrightarrow> k < 0"
  proof
    assume "v < 0"
    with p show "k < 0" by (cases "k < 0") simp_all
  next
    assume "k < 0"
    then have "k \<le> - 1" by simp
    then have "(of_int k :: rat) \<le> of_int (- 1)" by (simp only: of_int_le_iff)
    then have "(of_int k :: rat) \<le> - 1" by simp
    then have "(of_int k / 1000 :: rat) \<le> - 1 / 1000" by simp
    with e2 show "v < 0" by linarith
  qed
  have av: "\<bar>v\<bar> * 1000 = \<bar>v * 1000\<bar>" by (simp add: abs_mult)
  have "\<bar>\<bar>v * 1000\<bar> - \<bar>of_int k\<bar>\<bar> \<le> \<bar>v * 1000 - of_int k\<bar>" by (rule abs_triangle_ineq3)
  with e3 have "\<bar>\<bar>v\<bar> * 1000 - of_int \<bar>k\<bar>\<bar> < 1 / 2" by (simp add: av)
  then have n: "\<lfloor>\<bar>v\<bar> * 1000 + 1 / 2\<rfloor> = \<bar>k\<bar>" by (rule floor_near)
  have "\<bar>v\<bar> \<le> \<bar>v - of_int k / 1000\<bar> + \<bar>of_int k / 1000\<bar>" by simp
  with e2 \<open>\<bar>of_int k / 1000 :: rat\<bar> \<le> 10 ^ 16\<close> have "\<bar>v\<bar> < 10 ^ 16 + 1" by linarith
  then have "\<bar>v\<bar> < 10 ^ 21" by simp
  from toFixed3_digits [OF this] have f:
    "toFixed3 (Fin v) = (if k < 0 then ''-'' else []) @ show_int (\<bar>k\<bar> div 1000)
           @ ''.'' @ frac3 (\<bar>k\<bar> mod 1000)"
    by (simp only: n sg)
  have d: "CHR ''.'' \<notin> set (if k < 0 then ''-'' else [])" by simp
  have a: "0 \<le> \<bar>k\<bar>" by simp
  have "strip_zeros (toFixed3 (Fin v)) = decimal3 k"
    unfolding f decimal3_def by (rule strip_zeros_fixed [OF a d])
  then show ?thesis by (simp add: js_over_def v)
qed

lemma round3_finite:
  fixes q :: rat
  assumes "\<bar>q\<bar> \<le> 10 ^ 12"
  shows "\<exists>t. js_times (Fin q) 1000 = Fin t \<and>
             \<bar>t - q * 1000\<bar> \<le> (\<bar>q * 1000\<bar> + 1) / 2 ^ 53 \<and>
             round3 (JNum (Fin q)) = Some (decimal3 \<lfloor>t + 1 / 2\<rfloor>)"
proof -
  from assms have b: "\<bar>q * 1000\<bar> \<le> 10 ^ 15" by (simp add: abs_mult)
  then have "\<bar>q * 1000\<bar> \<le> 10 ^ 16" by simp
  from to_double_error [OF this] obtain t where
    t: "to_double (q * 1000) = Fin t"
    and e: "\<bar>t - q * 1000\<bar> \<le> (\<bar>q * 1000\<bar> + 1) / 2 ^ 53"
    by blast
  from b have "(\<bar>q * 1000\<bar> + 1) / 2 ^ 53 \<le> (10 ^ 15 + 1) / 2 ^ 53"
    by (simp add: divide_right_mono)
  also have "\<dots> < (1 / 2 :: rat)" by simp
  finally have "\<bar>t - q * 1000\<bar> < 1 / 2" using e by linarith
  with b have tb: "\<bar>t\<bar> \<le> 10 ^ 15 + 1 / 2" by linarith
  define k where "k = \<lfloor>t + 1 / 2\<rfloor>"
  have "of_int k \<le> t + 1 / 2" "t + 1 / 2 < of_int k + 1" unfolding k_def by linarith+
  with tb have "(of_int k :: rat) \<le> 10 ^ 15 + 1" "- (10 ^ 15) - 1 < (of_int k :: rat)"
    by (simp_all add: abs_le_iff)
  then have "(of_int k :: rat) < of_int (10 ^ 15 + 2)" "of_int (- (10 ^ 15) - 2) < (of_int k :: rat)"
    by simp_all
  then have "k < 10 ^ 15 + 2" "- (10 ^ 15) - 2 < k" by (simp_all only: of_int_less_iff)
  then have kb: "\<bar>k\<bar> \<le> 10 ^ 15 + 2" by simp
  have "round3 (JNum (Fin q)) = Some (strip_zeros (toFixed3 (js_over (Fin (of_int k)) 1000)))"
    by (simp add: round3_def is_finite_def js_times_def t math_round_def k_def)
  then have "round3 (JNum (Fin q)) = Some (decimal3 k)"
    by (simp only: toFixed3_thousandths [OF kb])
  with t e show ?thesis by (auto simp: js_times_def k_def)
qed

lemma round3_examples:
  "round3 (JNum (to_double (123456 / 100000))) = Some ''1.235''"
  "round3 (JNum (to_double (12 / 10))) = Some ''1.2''"
  "round3 (JNum (Fin 2)) = Some ''2''"
  "round3 (JStr ''abc'') = None"
  by code_simp+

lemma round3_tie:
  "js_times (Fin (- 1 / 16)) 1000 = Fin (- 125 / 2)"
  "round3 (JNum (Fin (- 1 / 16))) = Some ''-0.062''"
  "round3 (JNum (Fin 100000000000001)) = Some ''100000000000000.984''"
  by code_simp+

lemma decimal3_63: "decimal3 (- 63) = ''-0.063''"
  by code_simp

text \<open>
  C7, as the claim states it, fails. The double \<open>-0.0625\<close> times 1000 is exactly
  \<open>-62.5\<close>; rounding half away from zero gives \<open>-63\<close> thousandths, that is
  \<open>-0.063\<close>, and \<open>round3\<close> returns \<open>-0.062\<close>, because \<open>Math.round\<close> takes a tie
  towards \<open>+\<infinity>\<close>. Nor is every finite input rounded to three decimal places:
  for the integer \<open>100000000000001\<close>, a double, the product with 1000 and the
  quotient by 1000 are rounded, and \<open>round3\<close> returns \<open>100000000000000.984\<close>.
\<close>

theorem round3_half_away_counterexample:
  "js_times (Fin (- 1 / 16)) 1000 = Fin (- 125 / 2) \<and>
   round_half_away (- 125 / 2) = - 63 \<and>
   decimal3 (- 63) = ''-0.063'' \<and>
   round3 (JNum (Fin (- 1 / 16))) = Some ''-0.062'' \<and>
   round3 (JNum (Fin 100000000000001)) = Some ''100000000000000.984''"
proof -
  have "round_half_away (- 125 / 2) = - 63" by (simp add: round_half_away_def)
  then show ?thesis by (simp only: round3_tie decimal3_63)
qed

text \<open>
  C7, amended. \<open>round3\<close> returns null exactly when \<open>Number(v)\<close> is not finite, and a
  string is first converted by \<open>Number\<close>. For every finite input \<open>q\<close> of magnitude at
  most \<open>10 ^ 12\<close>: the product \<open>q * 1000\<close> is a finite double \<open>t\<close>, within the
  rounding error of a double of the exact product, and \<open>round3\<close> returns the decimal
  numeral of \<open>k\<close> thousandths, where \<open>k\<close> is the integer nearest to \<open>t\<close> and, when
  \<open>t\<close> is exactly half way between two integers, the one towards \<open>+\<infinity>\<close>, for
  negative as for positive inputs; the numeral has the integer part, then the three
  decimal digits without the zeros at their end, and no point when all three are zero.
  The four examples of the claim hold, the number literals being the doubles nearest to
  them.
\<close>

theorem round3_rounds:
  "(\<bar>q\<bar> \<le> 10 ^ 12 \<longrightarrow>
      (\<exists>t. js_times (Fin q) 1000 = Fin t \<and>
           \<bar>t - q * 1000\<bar> \<le> (\<bar>q * 1000\<bar> + 1) / 2 ^ 53 \<and>
           round3 (JNum (Fin q)) = Some (decimal3 \<lfloor>t + 1 / 2\<rfloor>))) \<and>
   round3 (JStr s) = round3 (JNum (string_to_number s)) \<and>
   (round3 v = None \<longleftrightarrow> \<not> is_finite (to_number v)) \<and>
   round3 (JNum (to_double (123456 / 100000))) = Some ''1.235'' \<and>
   round3 (JNum (to_double (12 / 10))) = Some ''1.2'' \<and>
   round3 (JNum (Fin 2)) = Some ''2'' \<and>
   round3 (JStr ''abc'') = None"
proof (intro conjI impI)
  assume "\<bar>q\<bar> \<le> 10 ^ 12"
  then show "\<exists>t. js_times (Fin q) 1000 = Fin t \<and>
           \<bar>t - q * 1000\<bar> \<le> (\<bar>q * 1000\<bar> + 1) / 2 ^ 53 \<and>
           round3 (JNum (Fin q)) = Some (decimal3 \<lfloor>t + 1 / 2\<rfloor>)"
    by (rule round3_finite)
next
  show "round3 (JStr s) = round3 (JNum (string_to_number s))" by (simp add: round3_def)
next
  show "round3 v = None \<longleftrightarrow> \<not> is_finite (to_number v)" by (simp add: round3_def Let_def)
qed (rule round3_examples)+

lemma eval_minus_5_2:
  "js_times (Fin (- 5 / 2)) 1000 = Fin (- 2500)" "decimal3 (- 2500) = ''-2.5''"
  by code_simp+

theorem round3_rounds_witness:
  "\<bar>- 5 / 2 :: rat\<bar> \<le> 10 ^ 12 \<and> round3 (JNum (Fin (- 5 / 2))) = Some ''-2.5''"
proof -
  have b: "\<bar>- 5 / 2 :: rat\<bar> \<le> 10 ^ 12" by simp
  with round3_rounds [of "- 5 / 2"] obtain t where
    t: "js_times (Fin (- 5 / 2)) 1000 = Fin t"
    and r: "round3 (JNum (Fin (- 5 / 2))) = Some (decimal3 \<lfloor>t + 1 / 2\<rfloor>)"
    by blast
  from t [unfolded eval_minus_5_2(1)] have "t = - 2500" by simp
  then have "\<lfloor>t + 1 / 2\<rfloor> = - 2500" by (simp add: floor_eq_iff)
  with r have "round3 (JNum (Fin (- 5 / 2))) = Some ''-2.5''" by (simp add: eval_minus_5_2)
  with b show ?thesis by (rule conjI)
qed
section \<open>No-op on equality\<close>

text \<open>
  C8. When the element's own content, trimmed, already equals the Normalized String,
  \<open>applyFormattedIfNeeded\<close> returns the state it was given: no node is written, no
  timer is registered or cleared, and the debounce map keeps its entries.
\<close>

theorem applyFormattedIfNeeded_noop_on_equal:
  assumes "nodes st el = Some n" and "current_text n = formatted"
  shows "applyFormattedIfNeeded el formatted st = st"
  using assms by (simp add: applyFormattedIfNeeded_def)

lemma trim_plain: "space_len s = 0 \<Longrightarrow> space_len_end s = 0 \<Longrightarrow> trim s = s"
  by (simp add: trim_def trim_start.simps trim_end.simps)

lemma written_node_text: "current_text written_node = ''wplace.live/?lat=1.235&lng=2''"
proof -
  have a: "space_len ''wplace.live/?lat=1.235&lng=2'' = 0" by code_simp
  have b: "space_len_end ''wplace.live/?lat=1.235&lng=2'' = 0" by code_simp
  show ?thesis
    by (simp add: current_text_def written_node_def or_else_def trim_plain [OF a b])
qed

lemma written_page_node: "nodes written_page 1 = Some written_node"
  by (simp add: written_page_def)

theorem applyFormattedIfNeeded_noop_on_equal_witness:
  "applyFormattedIfNeeded 1 ''wplace.live/?lat=1.235&lng=2'' written_page = written_page"
  using applyFormattedIfNeeded_noop_on_equal [OF written_page_node written_node_text]
  by simp

section \<open>What a Pending Rewrite writes\<close>



end
